theory Spec2Isabelle
  imports Complex_Main "HOL-Library.Word"
begin

section \<open>Data model (types/index.ts)\<close>

text \<open>
  \<^verbatim>\<open>PixelData = (string | null)[][]\<close>: the outer list holds the rows, a cell is
  \<open>None\<close> for \<^verbatim>\<open>null\<close> and \<open>Some id\<close> for a colour id.  The editor only ever builds
  rectangular grids (every row as long as row 0); the predicate \<open>rectangular\<close> states
  this, and the theorems about cell writes assume it, because a JavaScript write past
  the end of a shorter row would extend that row.
\<close>

type_synonym PixelData = "string option list list"

definition rectangular :: "PixelData \<Rightarrow> bool" where
  "rectangular g = (\<forall>row \<in> set g. length row = length (g ! 0))"

record HistoryItem =
  h_pixelData :: PixelData
  h_timestamp :: nat

text \<open>
  The zoom is a JavaScript number: a finite value (modelled by the real it denotes),
  an infinity, or \<^verbatim>\<open>NaN\<close>.  \<^verbatim>\<open>Math.min\<close> and \<^verbatim>\<open>Math.max\<close> return \<^verbatim>\<open>NaN\<close> when an
  argument is \<^verbatim>\<open>NaN\<close> and otherwise one of their arguments.  In a product or a
  quotient of finite values the rounding and the overflow of doubles are not modelled;
  a zero divisor is the positive zero (the divisors below are distances).
\<close>

datatype jsnum = NaN | NegInf | Fin real | PosInf

fun jsMin :: "jsnum \<Rightarrow> jsnum \<Rightarrow> jsnum" where
  "jsMin NaN b = NaN"
| "jsMin a NaN = NaN"
| "jsMin NegInf b = NegInf"
| "jsMin a NegInf = NegInf"
| "jsMin PosInf b = b"
| "jsMin a PosInf = a"
| "jsMin (Fin a) (Fin b) = Fin (min a b)"

fun jsMax :: "jsnum \<Rightarrow> jsnum \<Rightarrow> jsnum" where
  "jsMax NaN b = NaN"
| "jsMax a NaN = NaN"
| "jsMax PosInf b = PosInf"
| "jsMax a PosInf = PosInf"
| "jsMax NegInf b = b"
| "jsMax a NegInf = a"
| "jsMax (Fin a) (Fin b) = Fin (max a b)"

fun jsMul :: "jsnum \<Rightarrow> jsnum \<Rightarrow> jsnum" where
  "jsMul NaN b = NaN"
| "jsMul a NaN = NaN"
| "jsMul (Fin a) (Fin b) = Fin (a * b)"
| "jsMul (Fin a) PosInf = (if a = 0 then NaN else if a > 0 then PosInf else NegInf)"
| "jsMul (Fin a) NegInf = (if a = 0 then NaN else if a > 0 then NegInf else PosInf)"
| "jsMul PosInf (Fin b) = (if b = 0 then NaN else if b > 0 then PosInf else NegInf)"
| "jsMul NegInf (Fin b) = (if b = 0 then NaN else if b > 0 then NegInf else PosInf)"
| "jsMul PosInf PosInf = PosInf"
| "jsMul PosInf NegInf = NegInf"
| "jsMul NegInf PosInf = NegInf"
| "jsMul NegInf NegInf = PosInf"

fun jsDiv :: "jsnum \<Rightarrow> jsnum \<Rightarrow> jsnum" where
  "jsDiv NaN b = NaN"
| "jsDiv a NaN = NaN"
| "jsDiv (Fin a) (Fin b) =
     (if b = 0 then (if a = 0 then NaN else if a > 0 then PosInf else NegInf)
      else Fin (a / b))"
| "jsDiv (Fin a) PosInf = Fin 0"
| "jsDiv (Fin a) NegInf = Fin 0"
| "jsDiv PosInf (Fin b) = (if b \<ge> 0 then PosInf else NegInf)"
| "jsDiv NegInf (Fin b) = (if b \<ge> 0 then NegInf else PosInf)"
| "jsDiv PosInf PosInf = NaN"
| "jsDiv PosInf NegInf = NaN"
| "jsDiv NegInf PosInf = NaN"
| "jsDiv NegInf NegInf = NaN"

text \<open>The interval \<open>[0.1, 10]\<close>: no infinity and no \<^verbatim>\<open>NaN\<close> lies in it.\<close>

definition zoomInRange :: "jsnum \<Rightarrow> bool" where
  "zoomInRange z = (case z of Fin v \<Rightarrow> 1 / 10 \<le> v \<and> v \<le> 10 | NaN \<Rightarrow> False
                    | NegInf \<Rightarrow> False | PosInf \<Rightarrow> False)"

text \<open>Of \<^verbatim>\<open>UIState\<close> only the view parameters are kept.\<close>

record UIState =
  zoom :: jsnum
  panX :: real
  panY :: real

record StoreState =
  pixelData :: PixelData
  ui :: UIState
  history :: "HistoryItem list"
  historyIndex :: int

text \<open>
  The exceptions that reach a caller: a TypeError for a property read on
  \<^verbatim>\<open>undefined\<close>, and the IndexSizeError that the canvas's \<^verbatim>\<open>getImageData\<close> throws.
\<close>

datatype error = TypeError | IndexSizeError

section \<open>The store (store/useStore.ts)\<close>

definition MAX_HISTORY :: nat where
  "MAX_HISTORY = 50"

definition initialUIState :: UIState where
  "initialUIState = \<lparr>zoom = Fin 1, panX = 0, panY = 0\<rparr>"

text \<open>\<^verbatim>\<open>Array(height).fill(null).map(() => Array(width).fill(null))\<close>\<close>

definition createEmptyPixelData :: "nat \<Rightarrow> nat \<Rightarrow> PixelData" where
  "createEmptyPixelData width height = replicate height (replicate width None)"

text \<open>
  The initial store; the default width and height come from \<^verbatim>\<open>defaultConfig\<close>
  and are parameters here.
\<close>

definition initialStore :: "nat \<Rightarrow> nat \<Rightarrow> StoreState" where
  "initialStore width height =
     \<lparr>pixelData = createEmptyPixelData width height, ui = initialUIState,
      history = [], historyIndex = -1\<rparr>"

text \<open>\<^verbatim>\<open>xs.slice(0, e)\<close>: a negative end counts from the end of the array.\<close>

definition slice0 :: "'a list \<Rightarrow> int \<Rightarrow> 'a list" where
  "slice0 xs e = (if e < 0 then take (nat (int (length xs) + e)) xs else take (nat e) xs)"

text \<open>
  \<open>setPixelData\<close>: with \<open>saveHistory\<close> the grid that is being replaced is pushed
  after the entries up to the cursor, the oldest entry is shifted out once the length
  exceeds \<open>MAX_HISTORY\<close>, and the cursor is set to the last entry.  \<open>now\<close> is the
  value of \<^verbatim>\<open>Date.now()\<close>.
\<close>

definition setPixelData :: "PixelData \<Rightarrow> bool \<Rightarrow> nat \<Rightarrow> StoreState \<Rightarrow> StoreState" where
  "setPixelData newData saveHistory now s =
     (if saveHistory then
        (let pushed = slice0 (history s) (historyIndex s + 1)
                        @ [\<lparr>h_pixelData = pixelData s, h_timestamp = now\<rparr>];
             newHistory = (if length pushed > MAX_HISTORY then tl pushed else pushed)
         in s\<lparr>pixelData := newData, history := newHistory,
               historyIndex := int (length newHistory) - 1\<rparr>)
      else s\<lparr>pixelData := newData\<rparr>)"

text \<open>
  \<open>setPixel\<close>: the bounds test short-circuits, so row 0 is read only when the grid
  has a row \<open>y\<close>.  The new grid is the old one with cell \<open>x\<close> of row \<open>y\<close> replaced.
\<close>

definition setPixel :: "int \<Rightarrow> int \<Rightarrow> string option \<Rightarrow> nat \<Rightarrow> StoreState \<Rightarrow> StoreState" where
  "setPixel x y colorId now s =
     (let pd = pixelData s in
      if y < 0 \<or> y \<ge> int (length pd) then s
      else if x < 0 \<or> x \<ge> int (length (pd ! 0)) then s
      else if pd ! nat y ! nat x = colorId then s
      else setPixelData (pd[nat y := (pd ! nat y)[nat x := colorId]]) True now s)"

text \<open>\<open>setZoom\<close> stores \<^verbatim>\<open>Math.max(0.1, Math.min(10, zoom))\<close>.\<close>

definition setZoom :: "jsnum \<Rightarrow> StoreState \<Rightarrow> StoreState" where
  "setZoom z s = s\<lparr>ui := (ui s)\<lparr>zoom := jsMax (Fin (1 / 10)) (jsMin (Fin 10) z)\<rparr>\<rparr>"

text \<open>
  The zoom update of the two-finger handler \<^verbatim>\<open>handleTouchMove\<close> (components/
  EditorCanvas): \<^verbatim>\<open>scale = dist / touchStart.current.dist\<close> and
  \<^verbatim>\<open>setZoom(ui.zoom * scale)\<close>, where both distances are
  \<^verbatim>\<open>Math.sqrt(dx * dx + dy * dy)\<close> of the two touch points, the divisor being the
  distance at the previous event.  Neither handler tests a distance for zero.
\<close>

definition touchDist :: "real \<Rightarrow> real \<Rightarrow> real" where
  "touchDist dx dy = sqrt (dx * dx + dy * dy)"

definition pinchZoom :: "real \<Rightarrow> real \<Rightarrow> StoreState \<Rightarrow> StoreState" where
  "pinchZoom newDist startDist s =
     setZoom (jsMul (zoom (ui s)) (jsDiv (Fin newDist) (Fin startDist))) s"

text \<open>The wheel handler: \<^verbatim>\<open>setZoom(currentZoom * delta)\<close> with \<open>delta\<close> 0.9 or 1.1.\<close>

definition wheelZoom :: "bool \<Rightarrow> StoreState \<Rightarrow> StoreState" where
  "wheelZoom down s = setZoom (jsMul (zoom (ui s)) (Fin (if down then 9 / 10 else 11 / 10))) s"

definition setPan :: "real \<Rightarrow> real \<Rightarrow> StoreState \<Rightarrow> StoreState" where
  "setPan x y s = s\<lparr>ui := (ui s)\<lparr>panX := x, panY := y\<rparr>\<rparr>"

text \<open>
  \<open>undo\<close> and \<open>redo\<close> read \<^verbatim>\<open>state.history[i].pixelData\<close>; when \<open>i\<close> is not an
  index of the array the read of \<^verbatim>\<open>.pixelData\<close> on \<^verbatim>\<open>undefined\<close> throws a TypeError.
\<close>

definition undo :: "StoreState \<Rightarrow> error + StoreState" where
  "undo s =
     (if historyIndex s \<ge> 0 then
        (if historyIndex s < int (length (history s))
         then Inr (s\<lparr>pixelData := h_pixelData (history s ! nat (historyIndex s)),
                     historyIndex := historyIndex s - 1\<rparr>)
         else Inl TypeError)
      else Inr s)"

definition redo :: "StoreState \<Rightarrow> error + StoreState" where
  "redo s =
     (if historyIndex s < int (length (history s)) - 1 then
        (let nextIndex = historyIndex s + 1;
             s1 = s\<lparr>historyIndex := nextIndex\<rparr>
         in if nextIndex + 1 < int (length (history s)) then
              (if 0 \<le> nextIndex + 1
               then Inr (s1\<lparr>pixelData := h_pixelData (history s ! nat (nextIndex + 1))\<rparr>)
               else Inl TypeError)
            else Inr s1)
      else Inr s)"

definition canUndo :: "StoreState \<Rightarrow> bool" where
  "canUndo s = (historyIndex s \<ge> 0)"

definition canRedo :: "StoreState \<Rightarrow> bool" where
  "canRedo s = (historyIndex s < int (length (history s)) - 1)"

text \<open>Sequencing of store actions that may throw.\<close>

definition andThen :: "error + 'a \<Rightarrow> ('a \<Rightarrow> error + 'b) \<Rightarrow> error + 'b" where
  "andThen r f = (case r of Inl e \<Rightarrow> Inl e | Inr v \<Rightarrow> f v)"

fun undoN :: "nat \<Rightarrow> StoreState \<Rightarrow> error + StoreState" where
  "undoN 0 s = Inr s"
| "undoN (Suc n) s = andThen (undo s) (undoN n)"

text \<open>A sequence of committed edits: each replaces the grid and saves history.\<close>

fun edits :: "(PixelData \<times> nat) list \<Rightarrow> StoreState \<Rightarrow> StoreState" where
  "edits [] s = s"
| "edits ((g, now) # es) s = edits es (setPixelData g True now s)"

section \<open>Flood fill (utils/imageProcessor.ts)\<close>

text \<open>
  The breadth-first loop of \<open>floodFill\<close>.  The state is the queue, the visited set
  (the source keys it by the string \<^verbatim>\<open>x,y\<close>, which determines the pair) and the copy
  \<open>newData\<close> that is written.  One iteration takes the head of the queue, skips it
  when it was visited, lies outside the grid or does not hold the target value, and
  otherwise writes the new colour and appends the four neighbours.
\<close>

function floodLoop ::
  "nat \<Rightarrow> nat \<Rightarrow> string option \<Rightarrow> string \<Rightarrow> (int \<times> int) list \<Rightarrow> (int \<times> int) set
     \<Rightarrow> PixelData \<Rightarrow> PixelData" where
  "floodLoop width height targetColorId newColorId [] visited newData = newData"
| "floodLoop width height targetColorId newColorId ((x, y) # queue) visited newData =
     (if (x, y) \<in> visited then
        floodLoop width height targetColorId newColorId queue visited newData
      else if x < 0 \<or> x \<ge> int width \<or> y < 0 \<or> y \<ge> int height then
        floodLoop width height targetColorId newColorId queue visited newData
      else if newData ! nat y ! nat x \<noteq> targetColorId then
        floodLoop width height targetColorId newColorId queue visited newData
      else
        floodLoop width height targetColorId newColorId
          (queue @ [(x + 1, y), (x - 1, y), (x, y + 1), (x, y - 1)])
          (insert (x, y) visited)
          (newData[nat y := (newData ! nat y)[nat x := Some newColorId]]))"
  by pat_completeness auto

text \<open>
  Termination: a write marks a cell of the grid that was not visited before, so the
  number of unvisited cells falls; every other iteration shortens the queue.
\<close>

definition unvisited :: "nat \<Rightarrow> nat \<Rightarrow> (int \<times> int) set \<Rightarrow> nat" where
  "unvisited width height visited = card (({0..<int width} \<times> {0..<int height}) - visited)"

termination floodLoop
proof (relation "measures [\<lambda>(w, h, t, n, q, v, d). unvisited w h v,
                           \<lambda>(w, h, t, n, q, v, d). length q]", goal_cases)
  case 1
  then show ?case by simp
next
  case (2 width height targetColorId newColorId x y queue visited newData)
  then show ?case by simp
next
  case (3 width height targetColorId newColorId x y queue visited newData)
  then show ?case by simp
next
  case (4 width height targetColorId newColorId x y queue visited newData)
  then show ?case by simp
next
  case (5 width height targetColorId newColorId x y queue visited newData)
  let ?B = "{0..<int width} \<times> {0..<int height}"
  have fin: "finite (?B - visited)" by simp
  have mem: "(x, y) \<in> ?B - visited" using 5 by auto
  have "?B - insert (x, y) visited = (?B - visited) - {(x, y)}" by auto
  then have "card (?B - insert (x, y) visited) = card (?B - visited) - 1"
    using fin mem by simp
  moreover have "?B - visited \<noteq> {}" using mem by blast
  then have "card (?B - visited) > 0" using fin by (simp add: card_gt_0_iff)
  ultimately have "unvisited width height (insert (x, y) visited) < unvisited width height visited"
    by (simp add: unvisited_def)
  then show ?case by simp
qed

text \<open>
  \<open>floodFill\<close>: the width is that of row 0 (0 for a grid without rows); a start
  outside the grid, or a start cell that already holds the new colour, returns the
  input grid.
\<close>

definition floodFill :: "PixelData \<Rightarrow> int \<Rightarrow> int \<Rightarrow> string \<Rightarrow> PixelData" where
  "floodFill pd startX startY newColorId =
     (let height = length pd;
          width = (if height > 0 then length (pd ! 0) else 0)
      in if startX < 0 \<or> startX \<ge> int width \<or> startY < 0 \<or> startY \<ge> int height then pd
         else
           (let targetColorId = pd ! nat startY ! nat startX
            in if targetColorId = Some newColorId then pd
               else floodLoop width height targetColorId newColorId [(startX, startY)] {} pd))"

definition fillArea :: "int \<Rightarrow> int \<Rightarrow> string \<Rightarrow> nat \<Rightarrow> StoreState \<Rightarrow> StoreState" where
  "fillArea x y colorId now s =
     setPixelData (floodFill (pixelData s) x y colorId) True now s"

text \<open>
  The 4-connected region of the start cell: the cells of the grid that a path of
  horizontal and vertical steps joins to \<open>(x, y)\<close> through cells holding the value the
  start cell holds in the input grid.
\<close>

definition gridWidth :: "PixelData \<Rightarrow> nat" where
  "gridWidth g = (if length g > 0 then length (g ! 0) else 0)"

definition inGrid :: "PixelData \<Rightarrow> int \<times> int \<Rightarrow> bool" where
  "inGrid g p = (0 \<le> fst p \<and> fst p < int (gridWidth g) \<and> 0 \<le> snd p \<and> snd p < int (length g))"

definition cellAt :: "PixelData \<Rightarrow> int \<times> int \<Rightarrow> string option" where
  "cellAt g p = g ! nat (snd p) ! nat (fst p)"

definition neighbours :: "int \<times> int \<Rightarrow> (int \<times> int) list" where
  "neighbours p = [(fst p + 1, snd p), (fst p - 1, snd p), (fst p, snd p + 1), (fst p, snd p - 1)]"

inductive_set region :: "PixelData \<Rightarrow> int \<times> int \<Rightarrow> (int \<times> int) set"
  for g :: PixelData and start :: "int \<times> int" where
  start: "inGrid g start \<Longrightarrow> start \<in> region g start"
| step: "p \<in> region g start \<Longrightarrow> q \<in> set (neighbours p) \<Longrightarrow> inGrid g q
         \<Longrightarrow> cellAt g q = cellAt g start \<Longrightarrow> q \<in> region g start"

text \<open>
  The loop invariant used for the frame property of the fill: the shape of the grid is
  kept, a cell that differs from the input lies in the region and holds the new colour,
  and every queued position is the start or a neighbour of a region cell.
\<close>

definition floodInv ::
  "PixelData \<Rightarrow> int \<times> int \<Rightarrow> string \<Rightarrow> (int \<times> int) list \<Rightarrow> PixelData \<Rightarrow> bool" where
  "floodInv g start c q nd =
     (map length nd = map length g
      \<and> (\<forall>p. inGrid g p \<longrightarrow> cellAt nd p = cellAt g p \<or> (p \<in> region g start \<and> cellAt nd p = Some c))
      \<and> (\<forall>p \<in> set q. p = start \<or> (\<exists>r \<in> region g start. p \<in> set (neighbours r))))"

section \<open>Store actions and reachable states\<close>

text \<open>
  \<open>resetProject\<close> restores the initial store; \<open>loadProject\<close> replaces the grid and
  empties the history (the configuration is not modelled).
\<close>

definition resetProject :: "nat \<Rightarrow> nat \<Rightarrow> StoreState \<Rightarrow> StoreState" where
  "resetProject width height s = initialStore width height"

definition loadProject :: "PixelData \<Rightarrow> StoreState \<Rightarrow> StoreState" where
  "loadProject d s = s\<lparr>pixelData := d, history := [], historyIndex := -1\<rparr>"

text \<open>
  The actions of the store that can change the grid, the history or the view, and the
  states reachable from the initial store by performing them.  \<open>now\<close> is the clock
  value read by an action that saves history.
\<close>

datatype action =
    SetPixelData PixelData bool
  | SetPixel int int "string option"
  | FillArea int int string
  | SetZoom jsnum
  | PinchZoom real real
  | WheelZoom bool
  | SetPan real real
  | Undo
  | Redo
  | ResetProject
  | LoadProject PixelData

fun perform :: "nat \<Rightarrow> nat \<Rightarrow> action \<Rightarrow> nat \<Rightarrow> StoreState \<Rightarrow> error + StoreState" where
  "perform w h (SetPixelData d b) now s = Inr (setPixelData d b now s)"
| "perform w h (SetPixel x y c) now s = Inr (setPixel x y c now s)"
| "perform w h (FillArea x y c) now s = Inr (fillArea x y c now s)"
| "perform w h (SetZoom z) now s = Inr (setZoom z s)"
| "perform w h (PinchZoom newDist startDist) now s = Inr (pinchZoom newDist startDist s)"
| "perform w h (WheelZoom down) now s = Inr (wheelZoom down s)"
| "perform w h (SetPan x y) now s = Inr (setPan x y s)"
| "perform w h Undo now s = undo s"
| "perform w h Redo now s = redo s"
| "perform w h ResetProject now s = Inr (resetProject w h s)"
| "perform w h (LoadProject d) now s = Inr (loadProject d s)"

inductive reachable :: "nat \<Rightarrow> nat \<Rightarrow> StoreState \<Rightarrow> bool" for w h where
  init: "reachable w h (initialStore w h)"
| step: "reachable w h s \<Longrightarrow> perform w h a now s = Inr s' \<Longrightarrow> reachable w h s'"

text \<open>
  The history invariant: the cursor lies between \<open>-1\<close> and the last index, and the
  history holds at most \<open>MAX_HISTORY\<close> entries.
\<close>

definition historyWf :: "StoreState \<Rightarrow> bool" where
  "historyWf s = (-1 \<le> historyIndex s \<and> historyIndex s < int (length (history s))
                  \<and> length (history s) \<le> MAX_HISTORY)"

text \<open>The entry that \<open>setPixelData\<close> pushes: the grid being replaced and the time.\<close>

definition snapshot :: "nat \<Rightarrow> StoreState \<Rightarrow> HistoryItem" where
  "snapshot now s = \<lparr>h_pixelData = pixelData s, h_timestamp = now\<rparr>"

text \<open>A store whose history is full, with the cursor on the last entry.\<close>

definition fullHistory :: StoreState where
  "fullHistory =
     \<lparr>pixelData = [[None]], ui = initialUIState,
      history = map (\<lambda>t. \<lparr>h_pixelData = [[None]], h_timestamp = t\<rparr>) [0..<50],
      historyIndex = 49\<rparr>"

text \<open>The grids that successive undos restore, oldest first: the entries up to the cursor.\<close>

definition undoStack :: "StoreState \<Rightarrow> PixelData list" where
  "undoStack s = map h_pixelData (take (nat (historyIndex s + 1)) (history s))"

section \<open>Colours (types/index.ts, utils/colorUtils.ts)\<close>

text \<open>
  \<^verbatim>\<open>RGB\<close>, \<^verbatim>\<open>Lab\<close> and \<^verbatim>\<open>BeadColor\<close>.  The channels of an \<open>RGB\<close> value are
  integer-valued JavaScript numbers; the optional \<^verbatim>\<open>lab\<close> of a bead colour is an
  \<open>option\<close>.
\<close>

record RGB =
  rgb_r :: int
  rgb_g :: int
  rgb_b :: int

record Lab =
  lab_l :: real
  lab_a :: real
  lab_b :: real

record BeadColor =
  bead_id :: string
  bead_name :: string
  bead_code :: string
  bead_hex :: string
  bead_rgb :: RGB
  bead_lab :: "Lab option"

text \<open>
  \<open>rgbToLab\<close> and \<open>deltaE\<close> with the source's constants, in exact real arithmetic
  (the source computes them in double precision).  The results below hold for every
  distance the matcher may compute, with one exception: which of two beads is nearer
  to \<open>(128, 0, 128)\<close> in the 2 by 2 scenario, where the two distances are about 74 and
  about 108.
\<close>

definition srgbToLinear :: "real \<Rightarrow> real" where
  "srgbToLinear c = (if c > 0.04045 then ((c + 0.055) / 1.055) powr 2.4 else c / 12.92)"

definition labF :: "real \<Rightarrow> real" where
  "labF t = (if t > 0.008856 then t powr (1 / 3) else (7.787 * t) + 16 / 116)"

definition rgbToLab :: "RGB \<Rightarrow> Lab" where
  "rgbToLab rgb =
     (let r = srgbToLinear (real_of_int (rgb_r rgb) / 255);
          g = srgbToLinear (real_of_int (rgb_g rgb) / 255);
          b = srgbToLinear (real_of_int (rgb_b rgb) / 255);
          x = (r * 0.4124564 + g * 0.3575761 + b * 0.1804375) / 0.95047;
          y = (r * 0.2126729 + g * 0.7151522 + b * 0.0721750);
          z = (r * 0.0193339 + g * 0.1191920 + b * 0.9503041) / 1.08883;
          fx = labF x; fy = labF y; fz = labF z
      in \<lparr>lab_l = (116 * fy) - 16, lab_a = 500 * (fx - fy), lab_b = 200 * (fy - fz)\<rparr>)"

definition deltaE :: "Lab \<Rightarrow> Lab \<Rightarrow> real" where
  "deltaE lab1 lab2 =
     (let dL = lab_l lab1 - lab_l lab2;
          da = lab_a lab1 - lab_a lab2;
          db = lab_b lab1 - lab_b lab2
      in sqrt (dL * dL + da * da + db * db))"

text \<open>
  The running minimum of a search starts at \<^verbatim>\<open>Infinity\<close>, modelled by \<open>None\<close>:
  every distance is below it.
\<close>

definition belowMin :: "'a::linorder \<Rightarrow> 'a option \<Rightarrow> bool" where
  "belowMin d m = (case m of None \<Rightarrow> True | Some v \<Rightarrow> d < v)"

text \<open>
  \<open>findClosestBeadColor\<close>: \<^verbatim>\<open>null\<close> for an empty palette; otherwise the loop keeps
  the first colour with the least distance, starting from \<^verbatim>\<open>colors[0]\<close>.
\<close>

definition closestStep :: "Lab \<Rightarrow> BeadColor \<Rightarrow> BeadColor \<times> real option \<Rightarrow> BeadColor \<times> real option" where
  "closestStep targetLab color st =
     (let colorLab = (case bead_lab color of Some l \<Rightarrow> l | None \<Rightarrow> rgbToLab (bead_rgb color));
          distance = deltaE targetLab colorLab
      in if belowMin distance (snd st) then (color, Some distance) else st)"

definition findClosestBeadColor :: "RGB \<Rightarrow> BeadColor list \<Rightarrow> BeadColor option" where
  "findClosestBeadColor rgb colors =
     (if length colors = 0 then None
      else Some (fst (fold (closestStep (rgbToLab rgb)) colors (colors ! 0, None))))"

definition precomputeLabValues :: "BeadColor list \<Rightarrow> BeadColor list" where
  "precomputeLabValues colors =
     map (\<lambda>color. color\<lparr>bead_lab :=
            Some (case bead_lab color of Some l \<Rightarrow> l | None \<Rightarrow> rgbToLab (bead_rgb color))\<rparr>)
         colors"

section \<open>Median-cut quantizer (utils/imageProcessor.ts)\<close>

text \<open>
  The \<^verbatim>\<open>data\<close> of an \<^verbatim>\<open>ImageData\<close> is a \<^verbatim>\<open>Uint8ClampedArray\<close> with four bytes per
  pixel; it is modelled as the list of its pixels, so \<^verbatim>\<open>data[4 * j + 3]\<close> is the alpha
  of pixel \<open>j\<close>.
\<close>

record RGBA =
  px_r :: "8 word"
  px_g :: "8 word"
  px_b :: "8 word"
  px_a :: "8 word"

type_synonym ImageData = "RGBA list"

record ColorBox =
  colors :: "RGB list"
  rMin :: int
  rMax :: int
  gMin :: int
  gMax :: int
  bMin :: int
  bMax :: int

definition createColorBox :: "RGB list \<Rightarrow> ColorBox" where
  "createColorBox cs =
     \<lparr>colors = cs,
      rMin = fold (\<lambda>color m. min m (rgb_r color)) cs 255,
      rMax = fold (\<lambda>color m. max m (rgb_r color)) cs 0,
      gMin = fold (\<lambda>color m. min m (rgb_g color)) cs 255,
      gMax = fold (\<lambda>color m. max m (rgb_g color)) cs 0,
      bMin = fold (\<lambda>color m. min m (rgb_b color)) cs 255,
      bMax = fold (\<lambda>color m. max m (rgb_b color)) cs 0\<rparr>"

text \<open>
  \<open>splitColorBox\<close>: the channel with the largest range (r before g before b), a
  stable sort of the colours by that channel, and a cut at the middle index.
\<close>

definition splitChannel :: "ColorBox \<Rightarrow> RGB \<Rightarrow> int" where
  "splitChannel box =
     (let rRange = rMax box - rMin box;
          gRange = gMax box - gMin box;
          bRange = bMax box - bMin box
      in if rRange \<ge> gRange \<and> rRange \<ge> bRange then rgb_r
         else if gRange \<ge> rRange \<and> gRange \<ge> bRange then rgb_g
         else rgb_b)"

definition splitColorBox :: "ColorBox \<Rightarrow> ColorBox \<times> ColorBox" where
  "splitColorBox box =
     (let sorted = sort_key (splitChannel box) (colors box);
          mid = length sorted div 2
      in (createColorBox (take mid sorted), createColorBox (drop mid sorted)))"

text \<open>
  \<^verbatim>\<open>Math.round(sum / count)\<close> rounds half up: for a sum \<open>a \<ge> 0\<close> and a count
  \<open>n > 0\<close> it is \<open>(2 * a + n) div (2 * n)\<close>.  The boxes of the quantizer are never
  empty (lemma \<open>quantizeLoop_boxes\<close>), so the count is positive.
\<close>

definition roundDiv :: "int \<Rightarrow> int \<Rightarrow> int" where
  "roundDiv a n = (2 * a + n) div (2 * n)"

definition getAverageColor :: "ColorBox \<Rightarrow> RGB" where
  "getAverageColor box =
     (let rSum = sum_list (map rgb_r (colors box));
          gSum = sum_list (map rgb_g (colors box));
          bSum = sum_list (map rgb_b (colors box));
          count = int (length (colors box))
      in \<lparr>rgb_r = roundDiv rSum count, rgb_g = roundDiv gSum count,
          rgb_b = roundDiv bSum count\<rparr>)"

text \<open>The colours of the pixels whose alpha is at least 128, in array order.\<close>

definition opaqueColors :: "ImageData \<Rightarrow> RGB list" where
  "opaqueColors imageData =
     map (\<lambda>p. \<lparr>rgb_r = uint (px_r p), rgb_g = uint (px_g p), rgb_b = uint (px_b p)\<rparr>)
         (filter (\<lambda>p. \<not> uint (px_a p) < 128) imageData)"

text \<open>
  The search for the box to split: among the boxes with at least two colours, the
  first one whose volume exceeds every volume seen before it; index 0 and volume 0
  when there is none.
\<close>

definition boxVolume :: "ColorBox \<Rightarrow> int" where
  "boxVolume box = (rMax box - rMin box) * (gMax box - gMin box) * (bMax box - bMin box)"

definition maxBoxStep :: "nat \<times> ColorBox \<Rightarrow> nat \<times> int \<Rightarrow> nat \<times> int" where
  "maxBoxStep ib st =
     (if length (colors (snd ib)) < 2 then st
      else if boxVolume (snd ib) > snd st then (fst ib, boxVolume (snd ib)) else st)"

definition findMaxBox :: "ColorBox list \<Rightarrow> nat \<times> int" where
  "findMaxBox boxes = fold maxBoxStep (zip [0..<length boxes] boxes) (0, 0)"

text \<open>\<^verbatim>\<open>boxes.splice(maxIndex, 1, box1, box2)\<close>\<close>

definition splice2 :: "'a list \<Rightarrow> nat \<Rightarrow> 'a \<Rightarrow> 'a \<Rightarrow> 'a list" where
  "splice2 xs i a b = take i xs @ [a, b] @ drop (Suc i) xs"

function quantizeLoop :: "int \<Rightarrow> ColorBox list \<Rightarrow> ColorBox list" where
  "quantizeLoop colorCount boxes =
     (if int (length boxes) < colorCount then
        (let maxIndex = fst (findMaxBox boxes);
             maxVolume = snd (findMaxBox boxes)
         in if maxVolume = 0 then boxes
            else quantizeLoop colorCount
                   (splice2 boxes maxIndex (fst (splitColorBox (boxes ! maxIndex)))
                                           (snd (splitColorBox (boxes ! maxIndex)))))
      else boxes)"
  by pat_completeness auto

termination quantizeLoop
proof (relation "measure (\<lambda>(colorCount, boxes). nat (colorCount - int (length boxes)))",
       goal_cases)
  case 1
  then show ?case by simp
next
  case (2 colorCount boxes maxIndex maxVolume)
  then show ?case by (auto simp: splice2_def)
qed

definition medianCutQuantize :: "ImageData \<Rightarrow> int \<Rightarrow> RGB list" where
  "medianCutQuantize imageData colorCount =
     (let cs = opaqueColors imageData
      in if length cs = 0 then [\<lparr>rgb_r = 255, rgb_g = 255, rgb_b = 255\<rparr>]
         else map getAverageColor (quantizeLoop colorCount [createColorBox cs]))"

section \<open>Pixelizer (utils/imageProcessor.ts)\<close>

text \<open>
  \<open>mapToNearestColor\<close>: squared Euclidean distance in RGB, first minimum wins, start
  value \<^verbatim>\<open>palette[0]\<close> (\<^verbatim>\<open>undefined\<close>, here \<open>None\<close>, for an empty palette).  The
  colour argument is \<open>None\<close> for a pixel read past the end of the data: its channels
  are \<^verbatim>\<open>undefined\<close>, every distance is \<^verbatim>\<open>NaN\<close>, no comparison succeeds and the start
  value is returned.
\<close>

definition nearestStep :: "RGB \<Rightarrow> RGB \<Rightarrow> RGB option \<times> int option \<Rightarrow> RGB option \<times> int option" where
  "nearestStep rgb color st =
     (let dist = (rgb_r rgb - rgb_r color)\<^sup>2 + (rgb_g rgb - rgb_g color)\<^sup>2
                 + (rgb_b rgb - rgb_b color)\<^sup>2
      in if belowMin dist (snd st) then (Some color, Some dist) else st)"

definition mapToNearestColor :: "RGB option \<Rightarrow> RGB list \<Rightarrow> RGB option" where
  "mapToNearestColor rgb palette =
     (let start = (case palette of [] \<Rightarrow> None | c # _ \<Rightarrow> Some c)
      in case rgb of
           None \<Rightarrow> start
         | Some v \<Rightarrow> fst (fold (nearestStep v) palette (start, None)))"

text \<open>\<^verbatim>\<open>beadColor?.id || null\<close>: also \<^verbatim>\<open>null\<close> when the id is the empty string.\<close>

definition cellOfBead :: "BeadColor option \<Rightarrow> string option" where
  "cellOfBead bead =
     (case bead of None \<Rightarrow> None
      | Some c \<Rightarrow> (if bead_id c = [] then None else Some (bead_id c)))"

text \<open>
  One cell of the result.  The pixel index is \<open>y * width + x\<close>.  A transparent pixel
  gives \<^verbatim>\<open>null\<close>.  \<open>findClosestBeadColor\<close> reads the channels of its first argument
  only for a non-empty bead palette; with \<^verbatim>\<open>undefined\<close> as the argument that read
  throws a TypeError.
\<close>

definition pixelCell :: "ImageData \<Rightarrow> RGB list \<Rightarrow> BeadColor list \<Rightarrow> nat \<Rightarrow> error + string option" where
  "pixelCell imageData palette colorsWithLab i =
     (let px = (if i < length imageData then Some (imageData ! i) else None) in
      if (case px of Some p \<Rightarrow> uint (px_a p) < 128 | None \<Rightarrow> False) then Inr None
      else
        (let originalColor =
               map_option (\<lambda>p. \<lparr>rgb_r = uint (px_r p), rgb_g = uint (px_g p),
                                 rgb_b = uint (px_b p)\<rparr>) px;
             quantizedColor = mapToNearestColor originalColor palette
         in if length colorsWithLab = 0 then Inr None
            else (case quantizedColor of
                    None \<Rightarrow> Inl TypeError
                  | Some q \<Rightarrow> Inr (cellOfBead (findClosestBeadColor q colorsWithLab)))))"

text \<open>Collecting the results of a loop body that may throw: the first error wins.\<close>

fun collect :: "(error + 'a) list \<Rightarrow> error + 'a list" where
  "collect [] = Inr []"
| "collect (r # rs) =
     (case r of Inl e \<Rightarrow> Inl e
      | Inr v \<Rightarrow> (case collect rs of Inl e \<Rightarrow> Inl e | Inr vs \<Rightarrow> Inr (v # vs)))"

text \<open>
  An image, as the canvas sees it: \<open>img tw th x y\<close> is the pixel \<open>(x, y)\<close> that
  \<^verbatim>\<open>ctx.drawImage(image, 0, 0, tw, th)\<close> paints, with smoothing off, on an empty
  canvas of \<open>tw\<close> by \<open>th\<close> pixels.  The scaling is the browser's; \<open>imageOfPixels\<close>
  is the image of given size and pixels under nearest-neighbour sampling at the pixel
  centres, which at the image's own size returns the image's pixels.
\<close>

type_synonym Image = "nat \<Rightarrow> nat \<Rightarrow> nat \<Rightarrow> nat \<Rightarrow> RGBA"

definition imageOfPixels :: "nat \<Rightarrow> nat \<Rightarrow> RGBA list \<Rightarrow> Image" where
  "imageOfPixels iw ih pixels tw th x y =
     pixels ! ((((2 * y + 1) * ih) div (2 * th)) * iw + ((2 * x + 1) * iw) div (2 * tw))"

text \<open>
  \<open>getImagePixelData\<close>: a canvas of the target size, the image drawn on it, and
  \<^verbatim>\<open>ctx.getImageData(0, 0, targetWidth, targetHeight)\<close>.  By the HTML standard
  \<^verbatim>\<open>getImageData\<close> throws an IndexSizeError when the width or the height is zero.
  A negative width or height denotes a rectangle to the left of or above the origin,
  outside the canvas, whose pixels are transparent black.  Otherwise the data are the
  rows of the drawn image.  The image is taken to be loaded from the user's file (no
  cross-origin taint), and the browser's limit on the size of a canvas is not
  modelled.
\<close>

definition getImagePixelData :: "Image \<Rightarrow> int \<Rightarrow> int \<Rightarrow> error + ImageData" where
  "getImagePixelData img targetWidth targetHeight =
     (if targetWidth = 0 \<or> targetHeight = 0 then Inl IndexSizeError
      else if targetWidth < 0 \<or> targetHeight < 0 then
        Inr (replicate (nat \<bar>targetWidth\<bar> * nat \<bar>targetHeight\<bar>)
                       \<lparr>px_r = 0, px_g = 0, px_b = 0, px_a = 0\<rparr>)
      else
        Inr (concat (map (\<lambda>y. map (\<lambda>x. img (nat targetWidth) (nat targetHeight) x y)
                                    [0..<nat targetWidth])
                         [0..<nat targetHeight])))"

text \<open>
  The statements of \<open>pixelateImage\<close> after the first one, on the image data obtained:
  the quantized palette, the bead colours with their Lab values, and the loops over
  \<open>0 \<le> y < height\<close> and \<open>0 \<le> x < width\<close>.
\<close>

definition pixelateImageData ::
  "ImageData \<Rightarrow> int \<Rightarrow> int \<Rightarrow> int \<Rightarrow> BeadColor list \<Rightarrow> error + PixelData" where
  "pixelateImageData imageData width height colorCount beadColors =
     (let palette = medianCutQuantize imageData colorCount;
          colorsWithLab = precomputeLabValues beadColors
      in collect
           (map (\<lambda>y. collect
                   (map (\<lambda>x. pixelCell imageData palette colorsWithLab (y * nat width + x))
                        [0..<nat width]))
                [0..<nat height]))"

text \<open>
  \<open>pixelateImage\<close>: an exception of \<open>getImagePixelData\<close> reaches the caller before
  anything else is computed.
\<close>

definition pixelateImage ::
  "Image \<Rightarrow> int \<Rightarrow> int \<Rightarrow> int \<Rightarrow> BeadColor list \<Rightarrow> error + PixelData" where
  "pixelateImage img width height colorCount beadColors =
     andThen (getImagePixelData img width height)
       (\<lambda>imageData. pixelateImageData imageData width height colorCount beadColors)"

declare floodLoop.simps [simp del]

declare quantizeLoop.simps [simp del]

text \<open>
  Invariants of the quantizer loop: every box holds at least one colour and the boxes
  together hold \<open>n\<close> colours; the running maximum of the box search is either at
  volume 0 or points at a box with at least two colours.
\<close>

definition boxesOk :: "nat \<Rightarrow> ColorBox list \<Rightarrow> bool" where
  "boxesOk n boxes = ((\<forall>box \<in> set boxes. colors box \<noteq> [])
                      \<and> sum_list (map (\<lambda>box. length (colors box)) boxes) = n)"

definition maxOk :: "ColorBox list \<Rightarrow> nat \<times> int \<Rightarrow> bool" where
  "maxOk boxes st = (snd st = 0 \<or> (fst st < length boxes \<and> 2 \<le> length (colors (boxes ! fst st))))"

text \<open>Four opaque pixels, three black and one of colour \<open>(1, 1, 1)\<close>.\<close>

definition img4 :: ImageData where
  "img4 = [\<lparr>px_r = 0, px_g = 0, px_b = 0, px_a = 255\<rparr>,
           \<lparr>px_r = 0, px_g = 0, px_b = 0, px_a = 255\<rparr>,
           \<lparr>px_r = 0, px_g = 0, px_b = 0, px_a = 255\<rparr>,
           \<lparr>px_r = 1, px_g = 1, px_b = 1, px_a = 255\<rparr>]"

section \<open>The scenario of the 2 by 2 image\<close>

text \<open>
  The two-entry bead palette (red, blue, without precomputed Lab values), opaque red
  and blue pixels, the 2 by 2 image with a red first row and a blue second row, and
  the image of one red pixel.  Drawn on a canvas of its own size, the 2 by 2 image
  gives its four pixels in row order as image data.
\<close>

definition redBead :: BeadColor where
  "redBead = \<lparr>bead_id = ''red'', bead_name = ''Red'', bead_code = ''R'', bead_hex = ''#FF0000'',
              bead_rgb = \<lparr>rgb_r = 255, rgb_g = 0, rgb_b = 0\<rparr>, bead_lab = None\<rparr>"

definition blueBead :: BeadColor where
  "blueBead = \<lparr>bead_id = ''blue'', bead_name = ''Blue'', bead_code = ''B'', bead_hex = ''#0000FF'',
               bead_rgb = \<lparr>rgb_r = 0, rgb_g = 0, rgb_b = 255\<rparr>, bead_lab = None\<rparr>"

definition redPixel :: RGBA where
  "redPixel = \<lparr>px_r = 255, px_g = 0, px_b = 0, px_a = 255\<rparr>"

definition bluePixel :: RGBA where
  "bluePixel = \<lparr>px_r = 0, px_g = 0, px_b = 255, px_a = 255\<rparr>"

definition data2x2 :: ImageData where
  "data2x2 = [redPixel, redPixel, bluePixel, bluePixel]"

definition image2x2 :: Image where
  "image2x2 = imageOfPixels 2 2 data2x2"

definition redImage :: Image where
  "redImage = imageOfPixels 1 1 [redPixel]"

text \<open>The cell value that the bead matcher gives for the colour \<open>(128, 0, 128)\<close>.\<close>

definition purpleMatch :: "string option" where
  "purpleMatch = cellOfBead (findClosestBeadColor \<lparr>rgb_r = 128, rgb_g = 0, rgb_b = 128\<rparr>
                               (precomputeLabValues [redBead, blueBead]))"

section \<open>View transform (utils/canvasRenderer.ts, components/EditorCanvas.tsx)\<close>

text \<open>
  The canvas element as the renderer and the hit test see it: the size of its bitmap
  (\<^verbatim>\<open>canvas.width\<close>, \<^verbatim>\<open>canvas.height\<close>), its box on the screen
  (\<^verbatim>\<open>canvas.getBoundingClientRect()\<close>), and the scale of the context's transform at the
  time \<open>renderPixelGrid\<close> is called.  Coordinates are finite JavaScript numbers,
  modelled by the reals they denote; the rounding of doubles is not modelled.
\<close>

record CanvasView =
  canvasWidth :: real
  canvasHeight :: real
  rectLeft :: real
  rectTop :: real
  rectWidth :: real
  rectHeight :: real
  ctxScale :: real

text \<open>
  \<open>resizeCanvas\<close> of the editor components: with \<^verbatim>\<open>dpr = window.devicePixelRatio || 1\<close>
  and the box of the container, the bitmap gets \<^verbatim>\<open>rect.width * dpr\<close> by
  \<^verbatim>\<open>rect.height * dpr\<close> pixels (an integer: the fraction is dropped), the style size of
  the canvas is that of the box, and \<^verbatim>\<open>ctx.scale(dpr, dpr)\<close> is applied to the context,
  which the assignment of the bitmap size has just reset.
\<close>

definition resizeCanvas :: "real \<Rightarrow> real \<Rightarrow> real \<Rightarrow> real \<Rightarrow> real \<Rightarrow> CanvasView" where
  "resizeCanvas boxLeft boxTop boxWidth boxHeight devicePixelRatio =
     (let dpr = (if devicePixelRatio = 0 then 1 else devicePixelRatio)
      in \<lparr>canvasWidth = of_int \<lfloor>boxWidth * dpr\<rfloor>, canvasHeight = of_int \<lfloor>boxHeight * dpr\<rfloor>,
          rectLeft = boxLeft, rectTop = boxTop, rectWidth = boxWidth, rectHeight = boxHeight,
          ctxScale = dpr\<rparr>)"

text \<open>
  The forward transform of \<open>renderPixelGrid\<close>:
  \<^verbatim>\<open>ctx.translate(centerX + panX, centerY + panY)\<close>, \<^verbatim>\<open>ctx.scale(zoom, zoom)\<close>,
  \<^verbatim>\<open>ctx.translate(-gridWidth / 2, -gridHeight / 2)\<close>, on top of the transform the
  context already has.  A point \<open>p\<close> of the grid, in grid pixels, is drawn at the bitmap
  position \<open>renderPoint\<close>; the bitmap is stretched over the box of the canvas, which
  puts that position at the screen point \<open>clientPoint\<close>.  The centre of the cell
  \<open>(i, j)\<close> is \<open>((i + 1/2) * cellSize, (j + 1/2) * cellSize)\<close>, where the renderer
  writes the colour code.
\<close>

definition renderPoint ::
  "CanvasView \<Rightarrow> PixelData \<Rightarrow> real \<Rightarrow> real \<Rightarrow> real \<Rightarrow> real \<Rightarrow> real \<times> real \<Rightarrow> real \<times> real" where
  "renderPoint cv pd cellSize zoomValue panXValue panYValue p =
     (let centerX = canvasWidth cv / 2;
          centerY = canvasHeight cv / 2;
          gridW = real (gridWidth pd) * cellSize;
          gridH = real (length pd) * cellSize
      in (ctxScale cv * (centerX + panXValue + zoomValue * (fst p - gridW / 2)),
          ctxScale cv * (centerY + panYValue + zoomValue * (snd p - gridH / 2))))"

definition clientPoint :: "CanvasView \<Rightarrow> real \<times> real \<Rightarrow> real \<times> real" where
  "clientPoint cv b =
     (rectLeft cv + fst b * rectWidth cv / canvasWidth cv,
      rectTop cv + snd b * rectHeight cv / canvasHeight cv)"

definition cellCenter :: "real \<Rightarrow> int \<times> int \<Rightarrow> real \<times> real" where
  "cellCenter cellSize c =
     ((real_of_int (fst c) + 1 / 2) * cellSize, (real_of_int (snd c) + 1 / 2) * cellSize)"

definition cellToScreen ::
  "CanvasView \<Rightarrow> PixelData \<Rightarrow> real \<Rightarrow> real \<Rightarrow> real \<Rightarrow> real \<Rightarrow> int \<times> int \<Rightarrow> real \<times> real" where
  "cellToScreen cv pd cellSize zoomValue panXValue panYValue c =
     clientPoint cv (renderPoint cv pd cellSize zoomValue panXValue panYValue
                       (cellCenter cellSize c))"

text \<open>
  \<open>screenToPixel\<close>.  \<open>gridCoords\<close> is the pair \<open>(x, y)\<close> it computes before flooring.
  When \<^verbatim>\<open>rect.width\<close>, \<^verbatim>\<open>rect.height\<close>, \<open>zoom\<close> or \<open>cellSize\<close> is zero a division
  yields an infinity or \<^verbatim>\<open>NaN\<close>, no comparison of the bounds test succeeds, and the
  result is \<^verbatim>\<open>null\<close>.
\<close>

definition gridCoords ::
  "CanvasView \<Rightarrow> PixelData \<Rightarrow> real \<Rightarrow> real \<Rightarrow> real \<Rightarrow> real \<Rightarrow> real \<Rightarrow> real \<Rightarrow> real \<times> real" where
  "gridCoords cv pd cellSize zoomValue panXValue panYValue screenX screenY =
     (let canvasX = screenX - rectLeft cv;
          canvasY = screenY - rectTop cv;
          scaleX = canvasWidth cv / rectWidth cv;
          scaleY = canvasHeight cv / rectHeight cv;
          centerX = canvasWidth cv / 2;
          centerY = canvasHeight cv / 2;
          gridW = real (gridWidth pd) * cellSize;
          gridH = real (length pd) * cellSize
      in (((canvasX * scaleX - centerX - panXValue) / zoomValue + gridW / 2) / cellSize,
          ((canvasY * scaleY - centerY - panYValue) / zoomValue + gridH / 2) / cellSize))"

definition screenToPixel ::
  "real \<Rightarrow> real \<Rightarrow> CanvasView \<Rightarrow> PixelData \<Rightarrow> real \<Rightarrow> real \<Rightarrow> real \<Rightarrow> real \<Rightarrow> (int \<times> int) option" where
  "screenToPixel screenX screenY cv pd cellSize zoomValue panXValue panYValue =
     (if rectWidth cv = 0 \<or> rectHeight cv = 0 \<or> zoomValue = 0 \<or> cellSize = 0 then None
      else
        (let xy = gridCoords cv pd cellSize zoomValue panXValue panYValue screenX screenY;
             pixelX = \<lfloor>fst xy\<rfloor>;
             pixelY = \<lfloor>snd xy\<rfloor>
         in if pixelX \<ge> 0 \<and> pixelX < int (gridWidth pd) \<and> pixelY \<ge> 0
               \<and> pixelY < int (length pd)
            then Some (pixelX, pixelY) else None))"

text \<open>
  The view of the failing case: a box of 400 by 300 at the origin on a display with
  device pixel ratio 2, and the empty grid of 30 by 30 cells.
\<close>

definition hiDpiView :: CanvasView where
  "hiDpiView = resizeCanvas 0 0 400 300 2"

section \<open>Single-cell edits round-trip\<close>

lemma setPixelData_pixelData: "pixelData (setPixelData d b now s) = d"
  by (simp add: setPixelData_def Let_def)

text \<open>
  C7.  For a rectangular grid, an in-bounds cell \<open>(x, y)\<close> and any value \<open>v\<close>:
  setting the cell to \<open>v\<close> and then setting the same cell to the value it held at the
  start leaves a grid equal to the starting grid.
\<close>

theorem setPixel_round_trip:
  assumes "rectangular (pixelData s)"
    and "0 \<le> y" and "y < int (length (pixelData s))"
    and "0 \<le> x" and "x < int (length (pixelData s ! 0))"
  shows "pixelData (setPixel x y (pixelData s ! nat y ! nat x) now2 (setPixel x y v now1 s))
         = pixelData s"
proof (cases "pixelData s ! nat y ! nat x = v")
  case True
  then show ?thesis using assms by (simp add: setPixel_def Let_def)
next
  case False
  let ?pd = "pixelData s"
  let ?pd1 = "?pd[nat y := (?pd ! nat y)[nat x := v]]"
  have ylen: "nat y < length ?pd" using assms by simp
  have "?pd ! nat y \<in> set ?pd" using ylen by simp
  then have rowlen: "length (?pd ! nat y) = length (?pd ! 0)"
    using assms(1) by (simp add: rectangular_def)
  have xlen: "nat x < length (?pd ! nat y)" using assms rowlen by simp
  have s1: "pixelData (setPixel x y v now1 s) = ?pd1"
    using False assms by (simp add: setPixel_def Let_def setPixelData_pixelData)
  have len0: "length (?pd1 ! 0) = length (?pd ! 0)"
    using ylen rowlen by (cases "nat y = 0") simp_all
  have cell1: "?pd1 ! nat y ! nat x = v" using ylen xlen by simp
  have restored: "?pd1[nat y := (?pd1 ! nat y)[nat x := ?pd ! nat y ! nat x]] = ?pd"
    using ylen xlen by (simp add: list_update_same_conv)
  show ?thesis
  proof (cases "v = ?pd ! nat y ! nat x")
    case True
    with False show ?thesis by simp
  next
    case neq: False
    have "pixelData (setPixel x y (?pd ! nat y ! nat x) now2 (setPixel x y v now1 s))
          = ?pd1[nat y := (?pd1 ! nat y)[nat x := ?pd ! nat y ! nat x]]"
      unfolding setPixel_def [of x y "?pd ! nat y ! nat x"] Let_def s1
      using assms len0 cell1 neq by (simp add: setPixelData_pixelData)
    with restored show ?thesis by simp
  qed
qed

theorem setPixel_round_trip_witness:
  "pixelData (setPixel 1 0 (Some ''P01'') 2
       (setPixel 1 0 (Some ''P02'') 1
          \<lparr>pixelData = [[None, Some ''P01''], [None, None]], ui = initialUIState,
           history = [], historyIndex = -1\<rparr>))
   = [[None, Some ''P01''], [None, None]]"
  using setPixel_round_trip [of "\<lparr>pixelData = [[None, Some ''P01''], [None, None]],
      ui = initialUIState, history = [], historyIndex = -1\<rparr>" 0 1 2 "Some ''P02''" 1]
  by (simp add: rectangular_def)

section \<open>Flood fill changes only the region of the start cell\<close>

lemma cellAt_update:
  assumes "0 \<le> x" "0 \<le> y" "nat y < length nd" "nat x < length (nd ! nat y)"
    and "0 \<le> fst p" "0 \<le> snd p"
  shows "cellAt (nd[nat y := (nd ! nat y)[nat x := v]]) p = (if p = (x, y) then v else cellAt nd p)"
proof (cases "p = (x, y)")
  case True
  then show ?thesis using assms by (simp add: cellAt_def)
next
  case False
  show ?thesis
  proof (cases "snd p = y")
    case True
    with False have "fst p \<noteq> x" by (cases p) auto
    then have "nat (fst p) \<noteq> nat x" using assms by simp
    then show ?thesis using True False assms by (simp add: cellAt_def)
  next
    case sy: False
    then have "nat (snd p) \<noteq> nat y" using assms by simp
    then show ?thesis using False by (simp add: cellAt_def)
  qed
qed

lemma row_length:
  assumes "rectangular g" "map length nd = map length g" "i < length g"
  shows "length (nd ! i) = gridWidth g"
proof -
  have "length (nd ! i) = map length nd ! i" using assms by (metis length_map nth_map)
  also have "\<dots> = length (g ! i)" using assms by simp
  also have "\<dots> = length (g ! 0)" using assms by (simp add: rectangular_def)
  finally show ?thesis using assms(3) by (auto simp: gridWidth_def)
qed

lemma floodLoop_frame:
  assumes "rectangular g"
  shows "cellAt g start \<noteq> Some c \<Longrightarrow> floodInv g start c q nd \<Longrightarrow>
         floodInv g start c [] (floodLoop (gridWidth g) (length g) (cellAt g start) c q v nd)"
proof (induction "gridWidth g" "length g" "cellAt g start" c q v nd rule: floodLoop.induct)
  case (1 newColorId visited newData)
  then show ?case by (simp add: floodInv_def floodLoop.simps)
next
  case (2 newColorId x y queue visited newData)
  have invq: "floodInv g start newColorId queue newData"
    using "2.prems" by (simp add: floodInv_def)
  show ?case
  proof (cases "(x, y) \<in> visited \<or> (x < 0 \<or> x \<ge> int (gridWidth g) \<or> y < 0 \<or> y \<ge> int (length g))
                 \<or> newData ! nat y ! nat x \<noteq> cellAt g start")
    case True
    then show ?thesis using 2 invq by (auto simp: floodLoop.simps)
  next
    case False
    then have nv: "(x, y) \<notin> visited" and bx: "0 \<le> x" "x < int (gridWidth g)"
      and by': "0 \<le> y" "y < int (length g)"
      and tgt: "newData ! nat y ! nat x = cellAt g start" by auto
    have ing: "inGrid g (x, y)" using bx by' by (simp add: inGrid_def gridWidth_def)
    have lens: "map length newData = map length g" using "2.prems" by (simp add: floodInv_def)
    have ylen: "nat y < length newData" using by' lens by (metis length_map nat_less_iff of_nat_0_le_iff nat_int zless_nat_conj)
    have xlen: "nat x < length (newData ! nat y)"
      using row_length [OF assms(1) lens, of "nat y"] bx by' by simp
    have cur: "cellAt newData (x, y) = cellAt g start" using tgt by (simp add: cellAt_def)
    have "cellAt newData (x, y) = cellAt g (x, y) \<or> cellAt newData (x, y) = Some newColorId"
      using "2.prems" ing by (auto simp: floodInv_def)
    then have same: "cellAt g (x, y) = cellAt g start" using cur "2.prems"(1) by auto
    have "(x, y) = start \<or> (\<exists>r \<in> region g start. (x, y) \<in> set (neighbours r))"
      using "2.prems" by (simp add: floodInv_def)
    then have reg: "(x, y) \<in> region g start"
    proof
      assume "(x, y) = start"
      then show ?thesis using ing region.start by metis
    next
      assume "\<exists>r \<in> region g start. (x, y) \<in> set (neighbours r)"
      then show ?thesis using ing same region.step by blast
    qed
    let ?nd = "newData[nat y := (newData ! nat y)[nat x := Some newColorId]]"
    let ?q = "queue @ [(x + 1, y), (x - 1, y), (x, y + 1), (x, y - 1)]"
    have upd: "\<And>p. inGrid g p \<Longrightarrow> cellAt ?nd p = (if p = (x, y) then Some newColorId else cellAt newData p)"
      using cellAt_update [OF bx(1) by'(1) ylen xlen] by (simp add: inGrid_def)
    have "floodInv g start newColorId ?q ?nd"
      unfolding floodInv_def
    proof (intro conjI allI impI ballI)
      have "map length ?nd = (map length newData)[nat y := length (newData ! nat y)]"
        by (simp add: map_update)
      also have "\<dots> = map length newData"
        using ylen by (simp add: list_update_same_conv)
      finally show "map length ?nd = map length g" using lens by simp
    next
      fix p assume pin: "inGrid g p"
      have old: "cellAt newData p = cellAt g p
                 \<or> (p \<in> region g start \<and> cellAt newData p = Some newColorId)"
        using "2.prems"(2) pin unfolding floodInv_def by blast
      show "cellAt ?nd p = cellAt g p \<or> (p \<in> region g start \<and> cellAt ?nd p = Some newColorId)"
      proof (cases "p = (x, y)")
        case True
        then show ?thesis using upd [OF pin] reg by simp
      next
        case False
        then show ?thesis using upd [OF pin] old by simp
      qed
    next
      fix p assume "p \<in> set ?q"
      then consider "p \<in> set queue" | "p \<in> set (neighbours (x, y))" by (auto simp: neighbours_def)
      then show "p = start \<or> (\<exists>r \<in> region g start. p \<in> set (neighbours r))"
      proof cases
        case 1 then show ?thesis using invq by (simp add: floodInv_def)
      next
        case 2 then show ?thesis using reg by blast
      qed
    qed
    then show ?thesis using 2 False by (simp add: floodLoop.simps)
  qed
qed


lemma floodInv_init: "floodInv g start c [start] g"
  by (simp add: floodInv_def)

text \<open>
  C6.  For every rectangular grid \<open>g\<close>, start cell \<open>(x, y)\<close> and new colour id
  \<open>c\<close>, \<open>floodFill\<close> leaves unchanged every cell of the grid that is not in the
  4-connected region of cells reachable from \<open>(x, y)\<close> through cells holding the
  original value of the start cell; the rows keep their lengths, so only cells of that
  region can differ between input and output.
\<close>

theorem floodFill_frame:
  assumes "rectangular g" and "inGrid g p" and "p \<notin> region g (x, y)"
  shows "cellAt (floodFill g x y c) p = cellAt g p
         \<and> map length (floodFill g x y c) = map length g"
proof (cases "floodFill g x y c = g")
  case True
  then show ?thesis by simp
next
  case False
  then have tgt: "cellAt g (x, y) \<noteq> Some c"
    and run: "floodFill g x y c
              = floodLoop (gridWidth g) (length g) (cellAt g (x, y)) c [(x, y)] {} g"
    by (auto simp: floodFill_def Let_def cellAt_def gridWidth_def split: if_splits)
  have "floodInv g (x, y) c [] (floodFill g x y c)"
    unfolding run using floodLoop_frame [OF assms(1) tgt floodInv_init] .
  then show ?thesis using assms(2,3) unfolding floodInv_def by blast
qed

text \<open>The fill of the cell \<open>(0, 0)\<close> with blue on the grid red, red / blue, blue.\<close>

lemma floodFill_example:
  "floodFill [[Some ''red'', Some ''red''], [Some ''blue'', Some ''blue'']] 0 0 ''blue''
   = [[Some ''blue'', Some ''blue''], [Some ''blue'', Some ''blue'']]"
  by (simp add: floodFill_def floodLoop.simps)

theorem floodFill_frame_witness:
  "cellAt (floodFill [[Some ''A'', Some ''B'', Some ''A'']] 0 0 ''C'') (2, 0)
     = cellAt [[Some ''A'', Some ''B'', Some ''A'']] (2, 0)
   \<and> map length (floodFill [[Some ''A'', Some ''B'', Some ''A'']] 0 0 ''C'')
     = map length [[Some ''A'', Some ''B'', Some ''A'']]
   \<and> floodFill [[Some ''A'', Some ''B'', Some ''A'']] 0 0 ''C''
     = [[Some ''C'', Some ''B'', Some ''A'']]"
proof -
  let ?g = "[[Some ''A'', Some ''B'', Some ''A'']]"
  have only: "q = (0, 0)" if "q \<in> region ?g (0, 0)" for q
    using that
  proof (induction rule: region.induct)
    case start
    then show ?case by simp
  next
    case (step p q)
    then show ?case by (auto simp: neighbours_def inGrid_def gridWidth_def cellAt_def)
  qed
  have notin: "(2, 0) \<notin> region ?g (0, 0)" using only by fastforce
  have rect: "rectangular ?g" by (simp add: rectangular_def)
  have ing: "inGrid ?g (2, 0)" by (simp add: inGrid_def gridWidth_def)
  have val: "floodFill ?g 0 0 ''C'' = [[Some ''C'', Some ''B'', Some ''A'']]"
    by (simp add: floodFill_def floodLoop.simps)
  show ?thesis using floodFill_frame [OF rect ing notin, of "''C''"] val by simp
qed

section \<open>The zoom clamp\<close>

text \<open>For every argument other than \<^verbatim>\<open>NaN\<close> the clamp works, infinities included.\<close>

lemma setZoom_range: "z \<noteq> NaN \<Longrightarrow> zoomInRange (zoom (ui (setZoom z s)))"
  by (cases z) (simp_all add: setZoom_def zoomInRange_def)

lemma setZoom_NaN: "zoom (ui (setZoom NaN s)) = NaN"
  by (simp add: setZoom_def)

text \<open>
  C9.  The claim asks that the stored zoom lies in \<open>[0.1, 10]\<close> after every adjustment.
  Here the store is evaluated on a pinch whose two touch points coincide at two
  consecutive events: both distances are 0, the scale is \<open>0 / 0\<close>, and \<open>setZoom\<close>
  stores \<^verbatim>\<open>NaN\<close>, which lies outside the interval; a later wheel step multiplies
  \<^verbatim>\<open>NaN\<close> and stores \<^verbatim>\<open>NaN\<close> again.
\<close>

theorem pinch_at_one_point_stores_NaN:
  "touchDist 0 0 = 0
   \<and> reachable 2 2 (pinchZoom (touchDist 0 0) (touchDist 0 0) (initialStore 2 2))
   \<and> zoom (ui (pinchZoom (touchDist 0 0) (touchDist 0 0) (initialStore 2 2))) = NaN
   \<and> \<not> zoomInRange (zoom (ui (pinchZoom (touchDist 0 0) (touchDist 0 0) (initialStore 2 2))))
   \<and> zoom (ui (wheelZoom True (pinchZoom (touchDist 0 0) (touchDist 0 0) (initialStore 2 2))))
       = NaN"
proof -
  let ?s = "pinchZoom (touchDist 0 0) (touchDist 0 0) (initialStore 2 2)"
  have d: "touchDist 0 0 = 0" by (simp add: touchDist_def)
  have r: "reachable 2 2 ?s"
    using reachable.step [OF reachable.init, of 2 2 "PinchZoom (touchDist 0 0) (touchDist 0 0)" 0]
    by simp
  have z: "zoom (ui ?s) = NaN"
    by (simp add: pinchZoom_def d setZoom_def initialStore_def initialUIState_def)
  have w: "zoom (ui (wheelZoom True ?s)) = NaN" by (simp add: wheelZoom_def z setZoom_def)
  show ?thesis using d r z w by (simp add: zoomInRange_def)
qed

section \<open>History pushes\<close>

lemma setPixelData_save:
  assumes "historyWf s"
  shows "history (setPixelData d True now s)
           = (if historyIndex s < 49
              then take (nat (historyIndex s + 1)) (history s) @ [snapshot now s]
              else tl (history s) @ [snapshot now s])"
    and "historyIndex (setPixelData d True now s)
           = (if historyIndex s < 49 then historyIndex s + 1 else 49)"
proof -
  let ?k = "nat (historyIndex s + 1)"
  have k: "?k \<le> length (history s)" "length (history s) \<le> 50" "0 \<le> historyIndex s + 1"
    using assms by (auto simp: historyWf_def MAX_HISTORY_def)
  have sl: "slice0 (history s) (historyIndex s + 1) = take ?k (history s)"
    using k by (simp add: slice0_def)
  have len: "length (take ?k (history s)) = ?k" using k by simp
  show "history (setPixelData d True now s)
           = (if historyIndex s < 49
              then take (nat (historyIndex s + 1)) (history s) @ [snapshot now s]
              else tl (history s) @ [snapshot now s])"
  proof (cases "historyIndex s < 49")
    case True
    then show ?thesis using k sl len
      by (simp add: setPixelData_def Let_def MAX_HISTORY_def snapshot_def)
  next
    case False
    then have "?k = length (history s)" "history s \<noteq> []" "length (history s) = 50"
      using k by auto
    then show ?thesis using False k sl
      by (simp add: setPixelData_def Let_def MAX_HISTORY_def snapshot_def)
  qed
  show "historyIndex (setPixelData d True now s)
           = (if historyIndex s < 49 then historyIndex s + 1 else 49)"
  proof (cases "historyIndex s < 49")
    case True
    then show ?thesis using k sl len
      by (simp add: setPixelData_def Let_def MAX_HISTORY_def)
  next
    case False
    then have "?k = length (history s)" "length (history s) = 50" using k by auto
    then show ?thesis using False sl
      by (simp add: setPixelData_def Let_def MAX_HISTORY_def)
  qed
qed

lemma setPixelData_historyWf:
  assumes "historyWf s"
  shows "historyWf (setPixelData d b now s)"
proof (cases b)
  case True
  have "length (history s) \<le> 50" "historyIndex s < int (length (history s))" "-1 \<le> historyIndex s"
    using assms by (auto simp: historyWf_def MAX_HISTORY_def)
  then show ?thesis
    unfolding historyWf_def using True setPixelData_save [OF assms, of d now]
    by (auto simp: MAX_HISTORY_def)
next
  case False
  then show ?thesis using assms by (simp add: setPixelData_def historyWf_def)
qed

lemma floodFill_noop:
  assumes "\<not> inGrid pd (x, y) \<or> cellAt pd (x, y) = Some c"
  shows "floodFill pd x y c = pd"
  using assms
  by (auto simp: floodFill_def Let_def inGrid_def gridWidth_def cellAt_def)

lemma setPixel_noop:
  assumes "\<not> inGrid (pixelData s) (x, y) \<or> cellAt (pixelData s) (x, y) = v"
  shows "setPixel x y v now s = s"
proof (cases "y < 0 \<or> y \<ge> int (length (pixelData s))")
  case True
  then show ?thesis by (simp add: setPixel_def Let_def)
next
  case False
  then have "pixelData s \<noteq> []" by auto
  then show ?thesis using assms False
    by (auto simp: setPixel_def Let_def inGrid_def gridWidth_def cellAt_def)
qed

text \<open>
  C10 (as amended).  When \<open>fillArea\<close> is invoked with a start outside the grid or with
  a start cell that already holds the new colour id, the flood fill returns the input
  grid, and the store still pushes a snapshot of that unchanged grid after the entries
  up to the cursor and puts the cursor on it: the cursor advances by one while it is
  below 49; with the cursor at 49 (history full) the oldest entry is shifted out and
  the cursor stays at 49.  \<open>setPixel\<close> leaves the whole store unchanged in the same
  cases.
\<close>

theorem fillArea_noop_pushes_history:
  assumes "historyWf s"
    and "\<not> inGrid (pixelData s) (x, y) \<or> cellAt (pixelData s) (x, y) = Some c"
  shows "floodFill (pixelData s) x y c = pixelData s
         \<and> pixelData (fillArea x y c now s) = pixelData s
         \<and> history (fillArea x y c now s)
             = (if historyIndex s < 49
                then take (nat (historyIndex s + 1)) (history s) @ [snapshot now s]
                else tl (history s) @ [snapshot now s])
         \<and> historyIndex (fillArea x y c now s)
             = (if historyIndex s < 49 then historyIndex s + 1 else 49)
         \<and> setPixel x y (Some c) now s = s"
  using floodFill_noop [OF assms(2)] setPixel_noop [OF assms(2)]
    setPixelData_save [OF assms(1)]
  by (simp add: fillArea_def setPixelData_pixelData)

text \<open>
  C10 as stated fails when the history is full: a fill that changes nothing leaves the
  cursor where it was, at 49.
\<close>

theorem fillArea_noop_full_history:
  "\<not> inGrid (pixelData fullHistory) (-1, 0)
   \<and> pixelData (fillArea (-1) 0 ''P01'' 50 fullHistory) = pixelData fullHistory
   \<and> historyIndex (fillArea (-1) 0 ''P01'' 50 fullHistory) = historyIndex fullHistory"
  by (simp add: fullHistory_def fillArea_def floodFill_def setPixelData_def Let_def
        slice0_def MAX_HISTORY_def inGrid_def)

theorem fillArea_noop_pushes_history_witness:
  "history (fillArea 5 0 ''P01'' 7 (initialStore 1 1))
     = [\<lparr>h_pixelData = [[None]], h_timestamp = 7\<rparr>]
   \<and> historyIndex (fillArea 5 0 ''P01'' 7 (initialStore 1 1)) = 0
   \<and> pixelData (fillArea 5 0 ''P01'' 7 (initialStore 1 1)) = [[None]]
   \<and> setPixel 5 0 (Some ''P01'') 7 (initialStore 1 1) = initialStore 1 1"
proof -
  have wf: "historyWf (initialStore 1 1)"
    by (simp add: historyWf_def initialStore_def)
  have noop: "\<not> inGrid (pixelData (initialStore 1 1)) (5, 0)
              \<or> cellAt (pixelData (initialStore 1 1)) (5, 0) = Some ''P01''"
    by (simp add: inGrid_def gridWidth_def initialStore_def createEmptyPixelData_def)
  show ?thesis
    using fillArea_noop_pushes_history [OF wf noop, of 7]
    by (simp add: initialStore_def createEmptyPixelData_def snapshot_def)
qed

lemma undo_historyWf: "historyWf s \<Longrightarrow> undo s = Inr s' \<Longrightarrow> historyWf s'"
  by (auto simp: undo_def historyWf_def split: if_splits)

lemma redo_historyWf: "historyWf s \<Longrightarrow> redo s = Inr s' \<Longrightarrow> historyWf s'"
  by (auto simp: redo_def Let_def historyWf_def split: if_splits)

lemma undo_no_error: "historyWf s \<Longrightarrow> \<exists>s'. undo s = Inr s'"
  by (auto simp: undo_def historyWf_def)

lemma redo_no_error: "historyWf s \<Longrightarrow> \<exists>s'. redo s = Inr s'"
  by (auto simp: redo_def Let_def historyWf_def)

lemma setPixel_historyWf: "historyWf s \<Longrightarrow> historyWf (setPixel x y c now s)"
  by (simp add: setPixel_def Let_def setPixelData_historyWf)

lemma perform_historyWf:
  assumes "historyWf s" and "perform w h a now s = Inr s'"
  shows "historyWf s'"
proof (cases a)
  case (SetZoom z)
  then show ?thesis using assms by (auto simp: setZoom_def historyWf_def)
next
  case (PinchZoom newDist startDist)
  then show ?thesis using assms by (auto simp: pinchZoom_def setZoom_def historyWf_def)
next
  case (WheelZoom down)
  then show ?thesis using assms by (auto simp: wheelZoom_def setZoom_def historyWf_def)
next
  case (SetPan x y)
  then show ?thesis using assms by (auto simp: setPan_def historyWf_def)
next
  case ResetProject
  then show ?thesis using assms by (auto simp: resetProject_def initialStore_def historyWf_def)
next
  case (LoadProject d)
  then show ?thesis using assms by (auto simp: loadProject_def historyWf_def)
qed (use assms in \<open>auto simp: setPixelData_historyWf setPixel_historyWf fillArea_def
        dest: undo_historyWf redo_historyWf\<close>)

lemma reachable_historyWf: "reachable w h s \<Longrightarrow> historyWf s"
proof (induction rule: reachable.induct)
  case init
  then show ?case by (simp add: initialStore_def historyWf_def)
next
  case (step s a now s')
  then show ?case using perform_historyWf by blast
qed


section \<open>Undo and redo\<close>

lemma undoStack_edit:
  assumes "historyWf s"
  shows "undoStack (setPixelData d True now s)
         = (if length (undoStack s) < 50 then undoStack s @ [pixelData s]
            else tl (undoStack s) @ [pixelData s])"
proof -
  have k: "nat (historyIndex s + 1) \<le> length (history s)" "length (history s) \<le> 50"
      "0 \<le> historyIndex s + 1"
    using assms by (auto simp: historyWf_def MAX_HISTORY_def)
  have len: "length (undoStack s) = nat (historyIndex s + 1)"
    using k by (simp add: undoStack_def)
  show ?thesis
  proof (cases "historyIndex s < 49")
    case True
    then show ?thesis
      using setPixelData_save [OF assms, of d now] k len
      by (simp add: undoStack_def snapshot_def)
  next
    case False
    then have full: "nat (historyIndex s + 1) = length (history s)" "length (history s) = 50"
      using k by auto
    then show ?thesis
      using setPixelData_save [OF assms, of d now] False len
      by (simp add: undoStack_def snapshot_def map_tl)
  qed
qed

lemma undo_stack:
  assumes "historyWf s" and "undoStack s = st @ [g]"
  shows "\<exists>s'. undo s = Inr s' \<and> pixelData s' = g \<and> undoStack s' = st \<and> historyWf s'"
proof -
  have k: "nat (historyIndex s + 1) \<le> length (history s)" "0 \<le> historyIndex s + 1"
    using assms by (auto simp: historyWf_def)
  have len: "length (undoStack s) = nat (historyIndex s + 1)"
    using k by (simp add: undoStack_def)
  then have idx: "historyIndex s = int (length st)" using assms(2) k by simp
  then have lt: "length st < length (history s)" using assms(1) by (simp add: historyWf_def)
  have "undoStack s ! length st = g" using assms(2) by simp
  then have g: "h_pixelData (history s ! length st) = g"
    using idx lt by (simp add: undoStack_def)
  have "take (length st) (undoStack s) = st" using assms(2) by simp
  then have st: "map h_pixelData (take (length st) (history s)) = st"
    using idx by (simp add: undoStack_def take_map)
  show ?thesis
    using idx lt g st assms(1) by (simp add: undo_def undoStack_def historyWf_def)
qed

lemma undoN_stack:
  "historyWf s \<Longrightarrow> undoStack s = pre @ gs \<Longrightarrow>
   \<exists>s'. undoN (length gs) s = Inr s' \<and> pixelData s' = hd (gs @ [pixelData s])
        \<and> undoStack s' = pre \<and> historyWf s'"
proof (induction gs arbitrary: s rule: rev_induct)
  case Nil
  then show ?case by simp
next
  case (snoc g gs)
  from undo_stack [OF snoc.prems(1), of "pre @ gs" g] snoc.prems(2)
  obtain s1 where s1: "undo s = Inr s1" "pixelData s1 = g" "undoStack s1 = pre @ gs"
      "historyWf s1" by auto
  from snoc.IH [OF s1(4) s1(3)]
  obtain s' where s': "undoN (length gs) s1 = Inr s'" "pixelData s' = hd (gs @ [pixelData s1])"
      "undoStack s' = pre" "historyWf s'" by auto
  have "undoN (length (gs @ [g])) s = Inr s'" using s1(1) s'(1) by (simp add: andThen_def)
  moreover have "hd (gs @ [pixelData s1]) = hd ((gs @ [g]) @ [pixelData s])"
    using s1(2) by (cases gs) simp_all
  ultimately show ?case using s' by auto
qed

lemma edits_snoc: "edits (es @ [(g, now)]) s = setPixelData g True now (edits es s)"
  by (induction es s rule: edits.induct) simp_all

lemma edits_stack:
  "historyWf s \<Longrightarrow> length es \<le> 50 \<Longrightarrow>
   historyWf (edits es s)
   \<and> pixelData (edits es s) = last (pixelData s # map fst es)
   \<and> (\<exists>pre. undoStack (edits es s) = pre @ butlast (pixelData s # map fst es))"
proof (induction es rule: rev_induct)
  case Nil
  then show ?case by simp
next
  case (snoc e es)
  obtain g now where e: "e = (g, now)" by (cases e)
  let ?S = "edits es s"
  from snoc have wf: "historyWf ?S"
    and cur: "pixelData ?S = last (pixelData s # map fst es)" by auto
  from snoc obtain pre where pre: "undoStack ?S = pre @ butlast (pixelData s # map fst es)"
    by auto
  let ?old = "butlast (pixelData s # map fst es)"
  have bl: "butlast (pixelData s # map fst (es @ [e])) = ?old @ [pixelData ?S]"
    using cur e by (simp add: butlast_append)
  have lenold: "length ?old = length es" by simp
  have "\<exists>pre'. undoStack (setPixelData g True now ?S) = pre' @ ?old @ [pixelData ?S]"
  proof (cases "length (undoStack ?S) < 50")
    case True
    then show ?thesis using undoStack_edit [OF wf, of g now] pre by simp
  next
    case False
    then have "pre \<noteq> []" using pre lenold snoc.prems(2) by auto
    then have "tl (undoStack ?S) = tl pre @ ?old" using pre by simp
    then show ?thesis using undoStack_edit [OF wf, of g now] False by simp
  qed
  then show ?case
    using e bl wf by (simp add: edits_snoc setPixelData_historyWf setPixelData_pixelData)
qed

text \<open>
  After \<open>N \<le> MAX_HISTORY\<close> committed edits, \<open>N\<close> undos succeed and restore the grid
  the edits started from.
\<close>

lemma undoN_edits:
  assumes "historyWf s" and "length es \<le> MAX_HISTORY"
  shows "\<exists>s'. undoN (length es) (edits es s) = Inr s' \<and> pixelData s' = pixelData s"
proof -
  let ?gs = "butlast (pixelData s # map fst es)"
  from edits_stack [OF assms(1)] assms(2)
  obtain pre where wf: "historyWf (edits es s)"
    and cur: "pixelData (edits es s) = last (pixelData s # map fst es)"
    and st: "undoStack (edits es s) = pre @ ?gs"
    by (auto simp: MAX_HISTORY_def)
  have len: "length ?gs = length es" by simp
  from undoN_stack [OF wf st]
  obtain s' where s': "undoN (length es) (edits es s) = Inr s'"
    "pixelData s' = hd (?gs @ [pixelData (edits es s)])" using len by auto
  have "hd (?gs @ [pixelData (edits es s)]) = pixelData s"
    using cur by (cases es) simp_all
  then show ?thesis using s' by auto
qed

text \<open>A new edit keeps the entries up to the cursor and drops the ones beyond it.\<close>

lemma edit_after_undo_truncates:
  assumes "historyWf s" and "historyIndex s < 49"
  shows "history (setPixelData d True now s)
         = take (nat (historyIndex s + 1)) (history s) @ [snapshot now s]"
  using setPixelData_save(1) [OF assms(1), of d now] assms(2) by simp

text \<open>
  C1.  The claim asks that a redo right after an undo restores the grid of the most
  recent edit.  Here the store is evaluated on the 1 by 1 empty grid: one edit sets the
  cell to P01, \<open>undo\<close> brings back the empty grid, and \<open>redo\<close> then only moves the
  cursor to 0: the grid stays empty, the edited grid \<open>[[P01]]\<close> is in no history
  entry any more.
\<close>

theorem redo_after_undo_keeps_old_grid:
  "pixelData (setPixel 0 0 (Some ''P01'') 1 (initialStore 1 1)) = [[Some ''P01'']]
   \<and> andThen (undo (setPixel 0 0 (Some ''P01'') 1 (initialStore 1 1))) redo
       = Inr \<lparr>pixelData = [[None]], ui = initialUIState,
              history = [\<lparr>h_pixelData = [[None]], h_timestamp = 1\<rparr>], historyIndex = 0\<rparr>"
  by (simp add: setPixel_def setPixelData_def initialStore_def createEmptyPixelData_def
        slice0_def MAX_HISTORY_def undo_def redo_def andThen_def Let_def)


section \<open>The number of colours the quantizer returns\<close>

lemma maxBoxStep_ok:
  assumes "maxOk boxes st" and "fst ib < length boxes" and "boxes ! fst ib = snd ib"
  shows "maxOk boxes (maxBoxStep ib st)"
  using assms by (auto simp: maxOk_def maxBoxStep_def)

lemma fold_maxBoxStep_ok:
  "maxOk boxes st \<Longrightarrow> \<forall>ib \<in> set ibs. fst ib < length boxes \<and> boxes ! fst ib = snd ib \<Longrightarrow>
   maxOk boxes (fold maxBoxStep ibs st)"
proof (induction ibs arbitrary: st)
  case Nil
  then show ?case by simp
next
  case (Cons ib ibs)
  then show ?case using maxBoxStep_ok [of boxes st ib] by simp
qed

lemma findMaxBox_ok:
  assumes "snd (findMaxBox boxes) \<noteq> 0"
  shows "fst (findMaxBox boxes) < length boxes
         \<and> 2 \<le> length (colors (boxes ! fst (findMaxBox boxes)))"
proof -
  have "\<forall>ib \<in> set (zip [0..<length boxes] boxes). fst ib < length boxes \<and> boxes ! fst ib = snd ib"
    by (auto simp: set_zip)
  moreover have "maxOk boxes (0, 0)" by (simp add: maxOk_def)
  ultimately have "maxOk boxes (findMaxBox boxes)"
    unfolding findMaxBox_def by (rule fold_maxBoxStep_ok [rotated])
  then show ?thesis using assms by (simp add: maxOk_def)
qed

lemma colors_createColorBox: "colors (createColorBox cs) = cs"
  by (simp add: createColorBox_def)

lemma splitColorBox_colors:
  assumes "2 \<le> length (colors box)"
  shows "colors (fst (splitColorBox box)) \<noteq> []"
    and "colors (snd (splitColorBox box)) \<noteq> []"
    and "length (colors (fst (splitColorBox box))) + length (colors (snd (splitColorBox box)))
         = length (colors box)"
proof -
  let ?sorted = "sort_key (splitChannel box) (colors box)"
  have len: "length ?sorted = length (colors box)" by simp
  have mid: "0 < length ?sorted div 2" "length ?sorted div 2 < length ?sorted"
    using assms len by simp_all
  show "colors (fst (splitColorBox box)) \<noteq> []"
    using mid len by (simp add: splitColorBox_def Let_def colors_createColorBox del: length_sort)
      (metis length_0_conv less_nat_zero_code)
  show "colors (snd (splitColorBox box)) \<noteq> []"
    using mid len by (simp add: splitColorBox_def Let_def colors_createColorBox del: length_sort)
  show "length (colors (fst (splitColorBox box))) + length (colors (snd (splitColorBox box)))
         = length (colors box)"
    by (simp add: splitColorBox_def Let_def colors_createColorBox)
qed

lemma length_splice2: "i < length xs \<Longrightarrow> length (splice2 xs i a b) = Suc (length xs)"
  by (simp add: splice2_def)

lemma sum_list_splice2:
  assumes "i < length xs"
  shows "sum_list (map f (splice2 xs i a b)) + f (xs ! i) = sum_list (map f xs) + f a + (f b :: nat)"
proof -
  have "xs = take i xs @ [xs ! i] @ drop (Suc i) xs"
    using assms by (simp add: Cons_nth_drop_Suc)
  then have "sum_list (map f xs)
             = sum_list (map f (take i xs)) + f (xs ! i) + sum_list (map f (drop (Suc i) xs))"
    by (metis (no_types, lifting) append_Cons append_Nil list.simps(9) map_append sum_list.Cons
        sum_list.append add.assoc)
  then show ?thesis by (simp add: splice2_def)
qed

lemma set_splice2: "set (splice2 xs i a b) \<subseteq> insert a (insert b (set xs))"
  by (auto simp: splice2_def dest: in_set_takeD in_set_dropD)

lemma boxesOk_split:
  assumes "boxesOk n boxes" and "i < length boxes" and "2 \<le> length (colors (boxes ! i))"
  shows "boxesOk n (splice2 boxes i (fst (splitColorBox (boxes ! i)))
                                    (snd (splitColorBox (boxes ! i))))"
proof -
  let ?a = "fst (splitColorBox (boxes ! i))" and ?b = "snd (splitColorBox (boxes ! i))"
  note sp = splitColorBox_colors [OF assms(3)]
  have "\<forall>box \<in> set (splice2 boxes i ?a ?b). colors box \<noteq> []"
    using set_splice2 [of boxes i ?a ?b] assms(1) sp(1,2) by (auto simp: boxesOk_def)
  moreover have "sum_list (map (\<lambda>box. length (colors box)) (splice2 boxes i ?a ?b)) = n"
    using sum_list_splice2 [OF assms(2), of "\<lambda>box. length (colors box)" ?a ?b] sp(3) assms(1)
    by (simp add: boxesOk_def)
  ultimately show ?thesis by (simp add: boxesOk_def)
qed

lemma boxesOk_length: "boxesOk n boxes \<Longrightarrow> length boxes \<le> n"
proof (induction boxes arbitrary: n)
  case Nil
  then show ?case by simp
next
  case (Cons box boxes)
  then have rest: "boxesOk (n - length (colors box)) boxes"
    and pos: "1 \<le> length (colors box)" and le: "length (colors box) \<le> n"
    by (auto simp: boxesOk_def Suc_le_eq)
  have "length boxes \<le> n - length (colors box)" using Cons.IH [OF rest] .
  then show ?case using pos le by simp
qed

lemma quantizeLoop_boxes:
  "boxesOk n boxes \<Longrightarrow>
   boxesOk n (quantizeLoop colorCount boxes)
   \<and> length boxes \<le> length (quantizeLoop colorCount boxes)
   \<and> int (length (quantizeLoop colorCount boxes)) \<le> max (int (length boxes)) colorCount"
proof (induction colorCount boxes rule: quantizeLoop.induct)
  case (1 colorCount boxes)
  show ?case
  proof (cases "int (length boxes) < colorCount \<and> snd (findMaxBox boxes) \<noteq> 0")
    case False
    then show ?thesis using "1.prems" by (auto simp: quantizeLoop.simps [of colorCount boxes])
  next
    case True
    let ?i = "fst (findMaxBox boxes)"
    let ?next = "splice2 boxes ?i (fst (splitColorBox (boxes ! ?i))) (snd (splitColorBox (boxes ! ?i)))"
    from True findMaxBox_ok have i: "?i < length boxes" "2 \<le> length (colors (boxes ! ?i))"
      by auto
    have ok: "boxesOk n ?next" using boxesOk_split [OF "1.prems" i] .
    have len: "length ?next = Suc (length boxes)" using i(1) by (rule length_splice2)
    have run: "quantizeLoop colorCount boxes = quantizeLoop colorCount ?next"
      using True by (simp add: quantizeLoop.simps [of colorCount boxes] Let_def)
    have IH: "boxesOk n (quantizeLoop colorCount ?next)
              \<and> length ?next \<le> length (quantizeLoop colorCount ?next)
              \<and> int (length (quantizeLoop colorCount ?next)) \<le> max (int (length ?next)) colorCount"
      using "1.IH" [OF _ refl refl _ ok] True by simp
    show ?thesis unfolding run using IH len True by auto
  qed
qed

text \<open>
  C5 (as amended).  For every target count \<open>k \<ge> 1\<close> and every image with at least one
  opaque pixel, the median-cut quantizer returns between 1 and \<open>k\<close> colours, and never
  more colours than there are samples (opaque pixels); for an image without opaque
  pixels it returns exactly one colour, white \<open>(255, 255, 255)\<close>.  The quantizer is a
  total function: it returns for every input.
\<close>

theorem medianCutQuantize_count:
  "(1 \<le> colorCount \<and> opaqueColors imageData \<noteq> [] \<longrightarrow>
      1 \<le> length (medianCutQuantize imageData colorCount)
      \<and> int (length (medianCutQuantize imageData colorCount)) \<le> colorCount
      \<and> length (medianCutQuantize imageData colorCount) \<le> length (opaqueColors imageData))
   \<and> (opaqueColors imageData = [] \<longrightarrow>
      medianCutQuantize imageData colorCount = [\<lparr>rgb_r = 255, rgb_g = 255, rgb_b = 255\<rparr>])"
proof (intro conjI impI)
  assume "opaqueColors imageData = []"
  then show "medianCutQuantize imageData colorCount = [\<lparr>rgb_r = 255, rgb_g = 255, rgb_b = 255\<rparr>]"
    by (simp add: medianCutQuantize_def)
next
  assume a: "1 \<le> colorCount \<and> opaqueColors imageData \<noteq> []"
  let ?cs = "opaqueColors imageData"
  have ok: "boxesOk (length ?cs) [createColorBox ?cs]"
    using a by (simp add: boxesOk_def colors_createColorBox)
  note q = quantizeLoop_boxes [OF ok, of colorCount]
  have res: "medianCutQuantize imageData colorCount
             = map getAverageColor (quantizeLoop colorCount [createColorBox ?cs])"
    using a by (simp add: medianCutQuantize_def)
  show "1 \<le> length (medianCutQuantize imageData colorCount)" using q res by simp
  show "int (length (medianCutQuantize imageData colorCount)) \<le> colorCount"
    using q res a by simp
  show "length (medianCutQuantize imageData colorCount) \<le> length (opaqueColors imageData)"
    using boxesOk_length q res by simp
qed

lemma opaqueColors_img4: "opaqueColors img4 = [\<lparr>rgb_r = 0, rgb_g = 0, rgb_b = 0\<rparr>, \<lparr>rgb_r = 0, rgb_g = 0, rgb_b = 0\<rparr>,
   \<lparr>rgb_r = 0, rgb_g = 0, rgb_b = 0\<rparr>, \<lparr>rgb_r = 1, rgb_g = 1, rgb_b = 1\<rparr>]"
  by (simp add: img4_def opaqueColors_def)

lemma medianCutQuantize_img4: "medianCutQuantize img4 3 = [\<lparr>rgb_r = 0, rgb_g = 0, rgb_b = 0\<rparr>, \<lparr>rgb_r = 0, rgb_g = 0, rgb_b = 0\<rparr>,
   \<lparr>rgb_r = 1, rgb_g = 1, rgb_b = 1\<rparr>]"
  by (simp add: medianCutQuantize_def opaqueColors_img4 quantizeLoop.simps createColorBox_def findMaxBox_def
      maxBoxStep_def boxVolume_def splice2_def splitColorBox_def splitChannel_def Let_def
      getAverageColor_def roundDiv_def upt_rec)

text \<open>
  C5 as stated bounds the result by the number of distinct input colours.  With the
  samples black, black, black, \<open>(1, 1, 1)\<close> and \<open>k = 3\<close> the first cut leaves a black
  sample on each side, and three colours are returned for two distinct inputs.
\<close>

theorem medianCutQuantize_more_than_distinct:
  "length (medianCutQuantize img4 3) = 3 \<and> card (set (opaqueColors img4)) = 2"
  by (simp add: medianCutQuantize_img4 opaqueColors_img4)

theorem medianCutQuantize_count_witness:
  "1 \<le> length (medianCutQuantize img4 3)
   \<and> int (length (medianCutQuantize img4 3)) \<le> 3
   \<and> length (medianCutQuantize img4 3) \<le> length (opaqueColors img4)
   \<and> medianCutQuantize [] 3 = [\<lparr>rgb_r = 255, rgb_g = 255, rgb_b = 255\<rparr>]"
proof -
  have ne: "(1::int) \<le> 3 \<and> opaqueColors img4 \<noteq> []" by (simp add: opaqueColors_img4)
  have em: "opaqueColors [] = []" by (simp add: opaqueColors_def)
  show ?thesis
    using medianCutQuantize_count [of 3 img4] medianCutQuantize_count [of 3 "[]"] ne em
    by blast
qed
section \<open>When the pixelizer fails\<close>

lemma collect_Inr: "collect (map Inr xs) = Inr xs"
  by (induction xs) simp_all











lemma getImagePixelData_positive:
  assumes "0 < width" and "0 < height"
  shows "getImagePixelData img width height
         = Inr (concat (map (\<lambda>y. map (\<lambda>x. img (nat width) (nat height) x y) [0..<nat width])
                            [0..<nat height]))"
  using assms by (simp add: getImagePixelData_def)








section \<open>The empty bead palette\<close>

lemma findClosestBeadColor_None_iff: "findClosestBeadColor rgb beads = None \<longleftrightarrow> beads = []"
  by (simp add: findClosestBeadColor_def)

lemma pixelCell_no_beads: "pixelCell imageData palette [] i = Inr None"
  by (simp add: pixelCell_def Let_def)

lemma pixelateImageData_no_beads:
  "pixelateImageData imageData width height colorCount []
   = Inr (replicate (nat height) (replicate (nat width) None))"
proof -
  have row: "collect (map (\<lambda>x. pixelCell imageData palette [] (y * nat width + x)) [0..<nat width])
             = Inr (replicate (nat width) None)" for palette y
  proof -
    have "map (\<lambda>x. pixelCell imageData palette [] (y * nat width + x)) [0..<nat width]
          = map Inr (replicate (nat width) None)"
      by (simp add: pixelCell_no_beads map_replicate_const)
    then show ?thesis using collect_Inr by metis
  qed
  have "map (\<lambda>y. collect (map (\<lambda>x. pixelCell imageData palette [] (y * nat width + x))
                             [0..<nat width])) [0..<nat height]
        = map Inr (replicate (nat height) (replicate (nat width) None))" for palette
    by (simp add: row map_replicate_const)
  then show ?thesis
    unfolding pixelateImageData_def Let_def precomputeLabValues_def using collect_Inr
    by (metis list.simps(8))
qed

lemma pixelateImage_no_beads:
  assumes "0 < width" and "0 < height"
  shows "pixelateImage img width height colorCount []
         = Inr (replicate (nat height) (replicate (nat width) None))"
  using assms
  by (simp add: pixelateImage_def getImagePixelData_positive andThen_def
        pixelateImageData_no_beads)

text \<open>
  C4 (as amended).  For every input colour the palette matcher returns no match exactly
  when the palette is empty (it is a total function: it never throws).  With an empty
  bead palette the pixelizer raises no configuration error: on whatever image data it
  has obtained, and so for every target width and height of at least 1, it returns the
  grid of \<open>height\<close> rows of \<open>width\<close> cells that are all \<open>None\<close>.
\<close>

theorem empty_palette_all_none:
  "(findClosestBeadColor rgb beads = None \<longleftrightarrow> beads = [])
   \<and> pixelateImageData imageData width height colorCount []
     = Inr (replicate (nat height) (replicate (nat width) None))
   \<and> (0 < width \<and> 0 < height \<longrightarrow>
        pixelateImage img width height colorCount []
        = Inr (replicate (nat height) (replicate (nat width) None)))"
  by (simp add: findClosestBeadColor_None_iff pixelateImageData_no_beads pixelateImage_no_beads)

text \<open>
  C4 as stated asks for a configuration error on an empty bead palette.  The pixelizer
  returns the all-empty grid instead.
\<close>

theorem pixelateImage_empty_palette_silent:
  "pixelateImage redImage 1 1 2 [] = Inr [[None]]"
  by (simp add: pixelateImage_no_beads)

theorem empty_palette_all_none_witness:
  "pixelateImage image2x2 2 2 3 [] = Inr [[None, None], [None, None]]
   \<and> findClosestBeadColor \<lparr>rgb_r = 1, rgb_g = 2, rgb_b = 3\<rparr> [] = None"
proof -
  have pos: "(0::int) < 2 \<and> (0::int) < 2" by simp
  have "pixelateImage image2x2 2 2 3 [] = Inr (replicate (nat 2) (replicate (nat 2) None))"
    using empty_palette_all_none [of _ _ _ 2 2 3 image2x2] pos by blast
  moreover have "findClosestBeadColor \<lparr>rgb_r = 1, rgb_g = 2, rgb_b = 3\<rparr> [] = None"
    using empty_palette_all_none [of "\<lparr>rgb_r = 1, rgb_g = 2, rgb_b = 3\<rparr>" "[]" "[]" 2 2 3 image2x2]
    by blast
  ultimately show ?thesis by (simp add: numeral_2_eq_2)
qed

section \<open>The 2 by 2 red and blue image\<close>

lemma getImagePixelData_image2x2: "getImagePixelData image2x2 2 2 = Inr data2x2"
  by (simp add: getImagePixelData_def image2x2_def imageOfPixels_def data2x2_def upt_rec)

lemma opaqueColors_data2x2:
  "opaqueColors data2x2
   = [\<lparr>rgb_r = 255, rgb_g = 0, rgb_b = 0\<rparr>, \<lparr>rgb_r = 255, rgb_g = 0, rgb_b = 0\<rparr>,
      \<lparr>rgb_r = 0, rgb_g = 0, rgb_b = 255\<rparr>, \<lparr>rgb_r = 0, rgb_g = 0, rgb_b = 255\<rparr>]"
  by (simp add: data2x2_def redPixel_def bluePixel_def opaqueColors_def)

lemma medianCutQuantize_data2x2:
  "medianCutQuantize data2x2 2 = [\<lparr>rgb_r = 128, rgb_g = 0, rgb_b = 128\<rparr>]"
  by (simp add: medianCutQuantize_def opaqueColors_data2x2 quantizeLoop.simps createColorBox_def
      findMaxBox_def maxBoxStep_def boxVolume_def Let_def getAverageColor_def roundDiv_def)

lemma pixelCell_data2x2:
  assumes "i < 4"
  shows "pixelCell data2x2 [\<lparr>rgb_r = 128, rgb_g = 0, rgb_b = 128\<rparr>]
           (precomputeLabValues [redBead, blueBead]) i = Inr purpleMatch"
proof -
  have "i = 0 \<or> i = 1 \<or> i = 2 \<or> i = 3" using assms by auto
  then show ?thesis
    by (auto simp: pixelCell_def Let_def data2x2_def redPixel_def bluePixel_def
          mapToNearestColor_def nearestStep_def belowMin_def purpleMatch_def
          precomputeLabValues_def)
qed

lemma pixelateImage_image2x2:
  "pixelateImage image2x2 2 2 2 [redBead, blueBead]
   = Inr [[purpleMatch, purpleMatch], [purpleMatch, purpleMatch]]"
  by (simp add: pixelateImage_def getImagePixelData_image2x2 andThen_def pixelateImageData_def
        medianCutQuantize_data2x2 Let_def upt_rec pixelCell_data2x2)

text \<open>
  The box of the four samples has green range 0, so its volume is 0 and the quantizer
  does not split it; all four pixels are mapped to the single average colour and get
  the same bead, whichever it is.
\<close>

lemma pixelateImage_image2x2_not_rows:
  "pixelateImage image2x2 2 2 2 [redBead, blueBead]
   \<noteq> Inr [[Some ''red'', Some ''red''], [Some ''blue'', Some ''blue'']]"
proof
  assume "pixelateImage image2x2 2 2 2 [redBead, blueBead]
          = Inr [[Some ''red'', Some ''red''], [Some ''blue'', Some ''blue'']]"
  then have "purpleMatch = Some ''red''" and "purpleMatch = Some ''blue''"
    by (simp_all add: pixelateImage_image2x2)
  then have "Some ''red'' = Some ''blue''" by (rule trans [OF sym])
  then show False by simp
qed

text \<open>
  Which bead it is: bounds on the Lab coordinates of the three colours (rational
  bounds on the \<open>2.4\<close>-th power and on the cube roots) show that \<open>(128, 0, 128)\<close> is
  nearer to blue than to red.
\<close>

lemma root_power_id:
  fixes a :: real
  assumes "0 < a" "0 < n"
  shows "(a ^ n) powr (1 / real n) = a"
proof -
  have "(a ^ n) powr (1 / real n) = (a powr real n) powr (1 / real n)"
    using assms by (simp add: powr_realpow)
  also have "\<dots> = a powr (real n * (1 / real n))" by (simp add: powr_powr)
  also have "\<dots> = a" using assms by simp
  finally show ?thesis .
qed

lemma powr_rat_bounds:
  fixes lo hi t :: real
  assumes "0 < lo" "0 < t" "0 < n" "lo ^ n \<le> t ^ m" "t ^ m \<le> hi ^ n" "0 < hi"
  shows "lo \<le> t powr (real m / real n) \<and> t powr (real m / real n) \<le> hi"
proof -
  have e: "t powr (real m / real n) = (t ^ m) powr (1 / real n)"
  proof -
    have "(t ^ m) powr (1 / real n) = (t powr real m) powr (1 / real n)"
      using assms by (simp add: powr_realpow)
    also have "\<dots> = t powr (real m * (1 / real n))" by (simp add: powr_powr)
    finally show ?thesis by simp
  qed
  have "(lo ^ n) powr (1 / real n) \<le> (t ^ m) powr (1 / real n)"
    using assms by (intro powr_mono2) simp_all
  moreover have "(t ^ m) powr (1 / real n) \<le> (hi ^ n) powr (1 / real n)"
    using assms by (intro powr_mono2) simp_all
  ultimately show ?thesis
    using root_power_id [of lo n] root_power_id [of hi n] assms e by simp
qed

lemma labF_bounds:
  assumes "0 < lo" "0 < hi" "lo ^ 3 \<le> t" "t \<le> hi ^ 3" "0.008856 < t"
  shows "lo \<le> labF t \<and> labF t \<le> hi"
proof -
  have t: "0 < t" using assms(5) by simp
  have "lo \<le> t powr (real 1 / real 3) \<and> t powr (real 1 / real 3) \<le> hi"
    using assms t by (intro powr_rat_bounds) simp_all
  then show ?thesis using assms(5) by (simp add: labF_def)
qed

lemma srgbToLinear_0: "srgbToLinear 0 = 0"
  by (simp add: srgbToLinear_def)

lemma srgbToLinear_1: "srgbToLinear 1 = 1"
  by (simp add: srgbToLinear_def)

lemma srgbToLinear_128:
  "0.215 \<le> srgbToLinear (128 / 255) \<and> srgbToLinear (128 / 255) \<le> 0.217"
proof -
  let ?p = "(128 / 255 + 0.055) / 1.055 :: real"
  have "0.215 \<le> ?p powr (real 12 / real 5) \<and> ?p powr (real 12 / real 5) \<le> 0.217"
    by (intro powr_rat_bounds) (simp_all add: power_divide)
  moreover have "real 12 / real 5 = 2.4" by simp
  ultimately show ?thesis by (simp add: srgbToLinear_def)
qed

lemma labF_between:
  assumes "lo ^ 3 \<le> a" "a \<le> t" "t \<le> b" "b \<le> hi ^ 3" "0.008856 < a" "0 < lo" "0 < hi"
  shows "lo \<le> labF t \<and> labF t \<le> hi"
  using assms by (intro labF_bounds) simp_all

lemma rgbToLab_purple:
  "29.7 \<le> lab_l (rgbToLab \<lparr>rgb_r = 128, rgb_g = 0, rgb_b = 128\<rparr>)
   \<and> lab_l (rgbToLab \<lparr>rgb_r = 128, rgb_g = 0, rgb_b = 128\<rparr>) \<le> 29.94
   \<and> 57.5 \<le> lab_a (rgbToLab \<lparr>rgb_r = 128, rgb_g = 0, rgb_b = 128\<rparr>)
   \<and> lab_a (rgbToLab \<lparr>rgb_r = 128, rgb_g = 0, rgb_b = 128\<rparr>) \<le> 60
   \<and> -37 \<le> lab_b (rgbToLab \<lparr>rgb_r = 128, rgb_g = 0, rgb_b = 128\<rparr>)
   \<and> lab_b (rgbToLab \<lparr>rgb_r = 128, rgb_g = 0, rgb_b = 128\<rparr>) \<le> -36"
proof -
  define L where "L = srgbToLinear (128 / 255)"
  define x where "x = (L * 0.4124564 + 0 * 0.3575761 + L * 0.1804375) / 0.95047"
  define y where "y = L * 0.2126729 + 0 * 0.7151522 + L * 0.0721750"
  define z where "z = (L * 0.0193339 + 0 * 0.1191920 + L * 0.9503041) / 1.08883"
  have L: "0.215 \<le> L" "L \<le> 0.217" using srgbToLinear_128 by (simp_all add: L_def)
  have xb: "0.1341 \<le> x" "x \<le> 0.1354" using L by (simp_all add: x_def)
  have yb: "0.0612 \<le> y" "y \<le> 0.0619" using L by (simp_all add: y_def)
  have zb: "0.1914 \<le> z" "z \<le> 0.1933" using L by (simp_all add: z_def)
  have fx: "0.511 \<le> labF x \<and> labF x \<le> 0.514"
    using xb by (rule labF_between [rotated]) (simp_all add: power3_eq_cube)
  have fy: "0.394 \<le> labF y \<and> labF y \<le> 0.396"
    using yb by (rule labF_between [rotated]) (simp_all add: power3_eq_cube)
  have fz: "0.576 \<le> labF z \<and> labF z \<le> 0.579"
    using zb by (rule labF_between [rotated]) (simp_all add: power3_eq_cube)
  have lab: "rgbToLab \<lparr>rgb_r = 128, rgb_g = 0, rgb_b = 128\<rparr>
             = \<lparr>lab_l = 116 * labF y - 16, lab_a = 500 * (labF x - labF y),
                lab_b = 200 * (labF y - labF z)\<rparr>"
    by (simp add: rgbToLab_def Let_def srgbToLinear_0 L_def x_def y_def z_def)
  show ?thesis unfolding lab using fx fy fz by simp
qed

lemma rgbToLab_red:
  "53.13 \<le> lab_l (rgbToLab \<lparr>rgb_r = 255, rgb_g = 0, rgb_b = 0\<rparr>)
   \<and> lab_l (rgbToLab \<lparr>rgb_r = 255, rgb_g = 0, rgb_b = 0\<rparr>) \<le> 53.26
   \<and> 80 \<le> lab_a (rgbToLab \<lparr>rgb_r = 255, rgb_g = 0, rgb_b = 0\<rparr>)
   \<and> lab_a (rgbToLab \<lparr>rgb_r = 255, rgb_g = 0, rgb_b = 0\<rparr>) \<le> 81
   \<and> 67 \<le> lab_b (rgbToLab \<lparr>rgb_r = 255, rgb_g = 0, rgb_b = 0\<rparr>)
   \<and> lab_b (rgbToLab \<lparr>rgb_r = 255, rgb_g = 0, rgb_b = 0\<rparr>) \<le> 67.4"
proof -
  define x :: real where "x = (1 * 0.4124564 + 0 * 0.3575761 + 0 * 0.1804375) / 0.95047"
  define y :: real where "y = 1 * 0.2126729 + 0 * 0.7151522 + 0 * 0.0721750"
  define z :: real where "z = (1 * 0.0193339 + 0 * 0.1191920 + 0 * 0.9503041) / 1.08883"
  have xb: "0.4339 \<le> x" "x \<le> 0.4340" by (simp_all add: x_def)
  have yb: "0.2126 \<le> y" "y \<le> 0.2127" by (simp_all add: y_def)
  have zb: "0.0177 \<le> z" "z \<le> 0.01776" by (simp_all add: z_def)
  have fx: "0.757 \<le> labF x \<and> labF x \<le> 0.758"
    using xb by (rule labF_between [rotated]) (simp_all add: power3_eq_cube)
  have fy: "0.596 \<le> labF y \<and> labF y \<le> 0.597"
    using yb by (rule labF_between [rotated]) (simp_all add: power3_eq_cube)
  have fz: "0.260 \<le> labF z \<and> labF z \<le> 0.261"
    using zb by (rule labF_between [rotated]) (simp_all add: power3_eq_cube)
  have lab: "rgbToLab \<lparr>rgb_r = 255, rgb_g = 0, rgb_b = 0\<rparr>
             = \<lparr>lab_l = 116 * labF y - 16, lab_a = 500 * (labF x - labF y),
                lab_b = 200 * (labF y - labF z)\<rparr>"
    by (simp add: rgbToLab_def Let_def srgbToLinear_0 srgbToLinear_1 x_def y_def z_def)
  show ?thesis unfolding lab using fx fy fz by simp
qed

lemma rgbToLab_blue:
  "32.25 \<le> lab_l (rgbToLab \<lparr>rgb_r = 0, rgb_g = 0, rgb_b = 255\<rparr>)
   \<and> lab_l (rgbToLab \<lparr>rgb_r = 0, rgb_g = 0, rgb_b = 255\<rparr>) \<le> 32.38
   \<and> 78.5 \<le> lab_a (rgbToLab \<lparr>rgb_r = 0, rgb_g = 0, rgb_b = 255\<rparr>)
   \<and> lab_a (rgbToLab \<lparr>rgb_r = 0, rgb_g = 0, rgb_b = 255\<rparr>) \<le> 79.5
   \<and> -108 \<le> lab_b (rgbToLab \<lparr>rgb_r = 0, rgb_g = 0, rgb_b = 255\<rparr>)
   \<and> lab_b (rgbToLab \<lparr>rgb_r = 0, rgb_g = 0, rgb_b = 255\<rparr>) \<le> -107.6"
proof -
  define x :: real where "x = (0 * 0.4124564 + 0 * 0.3575761 + 1 * 0.1804375) / 0.95047"
  define y :: real where "y = 0 * 0.2126729 + 0 * 0.7151522 + 1 * 0.0721750"
  define z :: real where "z = (0 * 0.0193339 + 0 * 0.1191920 + 1 * 0.9503041) / 1.08883"
  have xb: "0.1898 \<le> x" "x \<le> 0.1899" by (simp_all add: x_def)
  have yb: "0.0721 \<le> y" "y \<le> 0.0722" by (simp_all add: y_def)
  have zb: "0.8727 \<le> z" "z \<le> 0.8728" by (simp_all add: z_def)
  have fx: "0.574 \<le> labF x \<and> labF x \<le> 0.575"
    using xb by (rule labF_between [rotated]) (simp_all add: power3_eq_cube)
  have fy: "0.416 \<le> labF y \<and> labF y \<le> 0.417"
    using yb by (rule labF_between [rotated]) (simp_all add: power3_eq_cube)
  have fz: "0.955 \<le> labF z \<and> labF z \<le> 0.956"
    using zb by (rule labF_between [rotated]) (simp_all add: power3_eq_cube)
  have lab: "rgbToLab \<lparr>rgb_r = 0, rgb_g = 0, rgb_b = 255\<rparr>
             = \<lparr>lab_l = 116 * labF y - 16, lab_a = 500 * (labF x - labF y),
                lab_b = 200 * (labF y - labF z)\<rparr>"
    by (simp add: rgbToLab_def Let_def srgbToLinear_0 srgbToLinear_1 x_def y_def z_def)
  show ?thesis unfolding lab using fx fy fz by simp
qed

lemma square_le:
  fixes d :: real
  assumes "- m \<le> d" "d \<le> m"
  shows "d * d \<le> m * m"
proof -
  have "\<bar>d\<bar> \<le> \<bar>m\<bar>" using assms by simp
  then show ?thesis by (metis abs_le_square_iff power2_eq_square)
qed

lemma square_ge:
  fixes d :: real
  assumes "d \<le> - m" "0 \<le> m"
  shows "m * m \<le> d * d"
proof -
  have "\<bar>m\<bar> \<le> \<bar>d\<bar>" using assms by simp
  then show ?thesis by (metis abs_le_square_iff power2_eq_square)
qed

lemma purple_nearer_blue:
  "deltaE (rgbToLab \<lparr>rgb_r = 128, rgb_g = 0, rgb_b = 128\<rparr>) (rgbToLab \<lparr>rgb_r = 0, rgb_g = 0, rgb_b = 255\<rparr>)
   < deltaE (rgbToLab \<lparr>rgb_r = 128, rgb_g = 0, rgb_b = 128\<rparr>) (rgbToLab \<lparr>rgb_r = 255, rgb_g = 0, rgb_b = 0\<rparr>)"
proof -
  define P where "P = rgbToLab \<lparr>rgb_r = 128, rgb_g = 0, rgb_b = 128\<rparr>"
  define R where "R = rgbToLab \<lparr>rgb_r = 255, rgb_g = 0, rgb_b = 0\<rparr>"
  define B where "B = rgbToLab \<lparr>rgb_r = 0, rgb_g = 0, rgb_b = 255\<rparr>"
  note p = rgbToLab_purple [folded P_def] and r = rgbToLab_red [folded R_def]
    and b = rgbToLab_blue [folded B_def]
  have bl: "(lab_l P - lab_l B) * (lab_l P - lab_l B) \<le> 3 * 3"
    using p b by (intro square_le) simp_all
  have ba: "(lab_a P - lab_a B) * (lab_a P - lab_a B) \<le> 22 * 22"
    using p b by (intro square_le) simp_all
  have bb: "(lab_b P - lab_b B) * (lab_b P - lab_b B) \<le> 72 * 72"
    using p b by (intro square_le) simp_all
  have rb: "103 * 103 \<le> (lab_b P - lab_b R) * (lab_b P - lab_b R)"
    using p r by (intro square_ge) simp_all
  have "(lab_l P - lab_l B) * (lab_l P - lab_l B) + (lab_a P - lab_a B) * (lab_a P - lab_a B)
          + (lab_b P - lab_b B) * (lab_b P - lab_b B)
        < (lab_l P - lab_l R) * (lab_l P - lab_l R) + (lab_a P - lab_a R) * (lab_a P - lab_a R)
          + (lab_b P - lab_b R) * (lab_b P - lab_b R)"
  proof -
    have "0 \<le> (lab_l P - lab_l R) * (lab_l P - lab_l R)"
      and "0 \<le> (lab_a P - lab_a R) * (lab_a P - lab_a R)" by simp_all
    then show ?thesis using bl ba bb rb by linarith
  qed
  then have "deltaE P B < deltaE P R" by (simp add: deltaE_def Let_def)
  then show ?thesis by (simp add: P_def R_def B_def)
qed

lemma purpleMatch_blue: "purpleMatch = Some ''blue''"
  using purple_nearer_blue
  by (simp add: purpleMatch_def findClosestBeadColor_def precomputeLabValues_def closestStep_def
        Let_def belowMin_def redBead_def blueBead_def cellOfBead_def)

text \<open>
  The box that is not split holds two distinct colours: the search for a box to split
  returns volume 0 for it, the value it also returns when no box has two colours,
  while \<open>splitColorBox\<close> would cut it into a box of the two blues and a box of the two
  reds, whose averages are the palette the claim needs.
\<close>

lemma splitColorBox_data2x2:
  "findMaxBox [createColorBox (opaqueColors data2x2)] = (0, 0)
   \<and> map getAverageColor
        [fst (splitColorBox (createColorBox (opaqueColors data2x2))),
         snd (splitColorBox (createColorBox (opaqueColors data2x2)))]
     = [\<lparr>rgb_r = 0, rgb_g = 0, rgb_b = 255\<rparr>, \<lparr>rgb_r = 255, rgb_g = 0, rgb_b = 0\<rparr>]"
  by (simp add: opaqueColors_data2x2 createColorBox_def findMaxBox_def maxBoxStep_def
        boxVolume_def splitColorBox_def splitChannel_def Let_def getAverageColor_def
        roundDiv_def)

text \<open>
  C2.  The claim asks for the grid red, red / blue, blue.  Here the pixelizer is
  evaluated on the scenario: the 2 by 2 fully opaque image with the pixels
  \<open>(255,0,0)\<close>, \<open>(255,0,0)\<close>, \<open>(0,0,255)\<close>, \<open>(0,0,255)\<close>, colour count 2, target grid
  2 by 2 and the palette red \<open>(255,0,0)\<close>, blue \<open>(0,0,255)\<close>.  The quantizer returns
  the single colour \<open>(128,0,128)\<close> instead of two colours, and the grid is blue, blue /
  blue, blue.
\<close>

theorem pixelateImage_image2x2_all_blue:
  "getImagePixelData image2x2 2 2 = Inr data2x2
   \<and> medianCutQuantize data2x2 2 = [\<lparr>rgb_r = 128, rgb_g = 0, rgb_b = 128\<rparr>]
   \<and> pixelateImage image2x2 2 2 2 [redBead, blueBead]
     = Inr [[Some ''blue'', Some ''blue''], [Some ''blue'', Some ''blue'']]"
  by (simp add: getImagePixelData_image2x2 medianCutQuantize_data2x2 pixelateImage_image2x2
        purpleMatch_blue)
section \<open>Forward and inverse view transform\<close>

text \<open>The inverse returns no cell exactly when the floored coordinates lie outside the grid.\<close>

lemma screenToPixel_None_iff:
  assumes "rectWidth cv \<noteq> 0" "rectHeight cv \<noteq> 0" "zoomValue \<noteq> 0" "cellSize \<noteq> 0"
  shows "screenToPixel sx sy cv pd cellSize zoomValue px py = None
         \<longleftrightarrow> \<not> inGrid pd (\<lfloor>fst (gridCoords cv pd cellSize zoomValue px py sx sy)\<rfloor>,
                          \<lfloor>snd (gridCoords cv pd cellSize zoomValue px py sx sy)\<rfloor>)"
  using assms by (auto simp: screenToPixel_def Let_def inGrid_def)

text \<open>
  When the context carries no scale of its own, the inverse undoes the forward
  transform for every zoom in \<open>[0.1, 10]\<close>, every pan and every size of bitmap and box.
\<close>

lemma gridCoords_cellToScreen:
  assumes "ctxScale cv = 1" "0 < canvasWidth cv" "0 < canvasHeight cv"
    and "0 < rectWidth cv" "0 < rectHeight cv" "zoomValue \<noteq> 0" "cellSize \<noteq> 0"
  shows "gridCoords cv pd cellSize zoomValue px py
           (fst (cellToScreen cv pd cellSize zoomValue px py c))
           (snd (cellToScreen cv pd cellSize zoomValue px py c))
         = (real_of_int (fst c) + 1 / 2, real_of_int (snd c) + 1 / 2)"
  using assms
  by (simp add: gridCoords_def cellToScreen_def clientPoint_def renderPoint_def cellCenter_def
        Let_def)

lemma floor_half: "\<lfloor>real_of_int i + 1 / 2\<rfloor> = i"
  by linarith

lemma screenToPixel_cellToScreen:
  assumes "ctxScale cv = 1" "0 < canvasWidth cv" "0 < canvasHeight cv"
    and "0 < rectWidth cv" "0 < rectHeight cv"
    and "1 / 10 \<le> zoomValue" "zoomValue \<le> 10" "0 < cellSize" "inGrid pd c"
  shows "screenToPixel (fst (cellToScreen cv pd cellSize zoomValue px py c))
           (snd (cellToScreen cv pd cellSize zoomValue px py c))
           cv pd cellSize zoomValue px py = Some c"
proof -
  have nz: "zoomValue \<noteq> 0" "cellSize \<noteq> 0" using assms by auto
  note g = gridCoords_cellToScreen [OF assms(1-5) nz, of pd px py c]
  show ?thesis
    using assms nz unfolding screenToPixel_def Let_def g
    by (simp add: floor_half inGrid_def)
qed

text \<open>
  C8.  The claim asks that the inverse transform recovers the cell whose centre the
  forward transform has put on the screen.  Here both are evaluated as the editor
  sets them up on a display with device pixel ratio 2: \<open>resizeCanvas\<close> makes the bitmap
  800 by 600 for a box of 400 by 300 and scales the context by 2, \<open>renderPixelGrid\<close>
  adds the centre of the bitmap, \<open>(400, 300)\<close>, inside that scale, and the centre of
  the cell \<open>(0, 0)\<close> of a 30 by 30 grid (cell size 20, zoom 1, no pan) appears at the
  screen point \<open>(110, 10)\<close>.  \<open>screenToPixel\<close> maps that point to the cell \<open>(6, 1)\<close>.
\<close>

theorem screenToPixel_hiDpi_other_cell:
  "hiDpiView = \<lparr>canvasWidth = 800, canvasHeight = 600, rectLeft = 0, rectTop = 0,
                 rectWidth = 400, rectHeight = 300, ctxScale = 2\<rparr>
   \<and> inGrid (createEmptyPixelData 30 30) (0, 0)
   \<and> cellToScreen hiDpiView (createEmptyPixelData 30 30) 20 1 0 0 (0, 0) = (110, 10)
   \<and> screenToPixel 110 10 hiDpiView (createEmptyPixelData 30 30) 20 1 0 0 = Some (6, 1)"
proof -
  have v: "hiDpiView = \<lparr>canvasWidth = 800, canvasHeight = 600, rectLeft = 0, rectTop = 0,
                 rectWidth = 400, rectHeight = 300, ctxScale = 2\<rparr>"
    by (simp add: hiDpiView_def resizeCanvas_def)
  have w: "gridWidth (createEmptyPixelData 30 30) = 30" "length (createEmptyPixelData 30 30) = 30"
    by (simp_all add: gridWidth_def createEmptyPixelData_def)
  have i: "inGrid (createEmptyPixelData 30 30) (0, 0)" by (simp add: inGrid_def w)
  have f: "cellToScreen hiDpiView (createEmptyPixelData 30 30) 20 1 0 0 (0, 0) = (110, 10)"
    by (simp add: v cellToScreen_def clientPoint_def renderPoint_def cellCenter_def w Let_def)
  have g: "gridCoords hiDpiView (createEmptyPixelData 30 30) 20 1 0 0 110 10 = (6, 1)"
    by (simp add: v gridCoords_def w Let_def)
  have s: "screenToPixel 110 10 hiDpiView (createEmptyPixelData 30 30) 20 1 0 0 = Some (6, 1)"
    unfolding screenToPixel_def Let_def g by (simp add: v w)
  show ?thesis using v i f s by simp
qed

end
